theory Spec2Isabelle
  imports Complex_Main "HOL-Library.Multiset"
begin

section \<open>Python values used by bs\_transformer.py\<close>

text \<open>
  A Python \<open>str\<close> is a sequence of Unicode code points; it is modelled as a list of
  natural numbers, one per code point, so that \<open>len\<close>, slicing and the \<open>in\<close> test count
  what Python counts. The characters the source names are: comma U+002C (44), hyphen-minus
  U+002D (45), the white up-pointing triangle U+25B3 (9651, the alternate negative glyph),
  the reference mark U+203B (8251, the annotation marker) and the double quote U+0022 (34).
\<close>

type_synonym ustr = "nat list"

text \<open>
  Exceptions are values. Only the exception classes that the modelled code can raise and
  that its \<open>except\<close> clauses tell apart are listed.
\<close>

datatype py_error = ValueError | OverflowError | AttributeError

text \<open>
  A Python \<open>float\<close> is an IEEE 754 binary64 number. A finite one is modelled by its exact
  rational value (the sign of zero is not kept: no operation of the source observes it);
  every arithmetic result is rounded to binary64 by \<open>round_double\<close>.
\<close>

datatype pyfloat = Fin rat | PInf | NInf | NaN

subsection \<open>Unicode tables of the interpreter\<close>

text \<open>
  The code points of general category Nd come in runs of ten, in the order of their digit
  values; \<open>nd_zeros\<close> lists the code point of digit zero of every run (Unicode 14, the table
  of CPython 3.11). \<open>\d\<close> in a \<open>str\<close> pattern and \<open>float\<close> both use this table.
\<close>

definition nd_zeros :: "nat list" where
  "nd_zeros =
    [48, 1632, 1776, 1984, 2406, 2534, 2662, 2790, 2918, 3046, 3174, 3302, 3430, 3558,
     3664, 3792, 3872, 4160, 4240, 6112, 6160, 6470, 6608, 6784, 6800, 6992, 7088, 7232,
     7248, 42528, 43216, 43264, 43472, 43504, 43600, 44016, 65296, 66720, 68912, 69734,
     69872, 69942, 70096, 70384, 70736, 70864, 71248, 71360, 71472, 71904, 72016, 72784,
     73040, 73120, 92768, 92864, 93008, 120782, 120792, 120802, 120812, 120822, 123200,
     123632, 125264, 130032]"

definition decimal_value :: "nat \<Rightarrow> nat option" where
  "decimal_value c =
     (if c < 128 then (if 48 \<le> c \<and> c \<le> 57 then Some (c - 48) else None)
      else map_option (\<lambda>z. c - z) (find (\<lambda>z. z \<le> c \<and> c \<le> z + 9) nd_zeros))"

definition is_decimal :: "nat \<Rightarrow> bool" where
  "is_decimal c = (decimal_value c \<noteq> None)"

text \<open>\<open>str.isspace\<close>, which is also \<open>\s\<close> of a \<open>str\<close> pattern and what \<open>str.strip()\<close> removes.\<close>

definition isspace :: "nat \<Rightarrow> bool" where
  "isspace c = (c \<in> set [9, 10, 11, 12, 13, 28, 29, 30, 31, 32, 133, 160, 5760, 8192, 8193,
     8194, 8195, 8196, 8197, 8198, 8199, 8200, 8201, 8202, 8232, 8233, 8239, 8287, 12288])"

subsection \<open>String methods\<close>

definition strip :: "ustr \<Rightarrow> ustr" where
  "strip s = rev (dropWhile isspace (rev (dropWhile isspace s)))"

text \<open>\<open>s.replace(',', '')\<close>\<close>

definition remove_commas :: "ustr \<Rightarrow> ustr" where
  "remove_commas s = filter (\<lambda>c. c \<noteq> 44) s"

text \<open>\<open>s.startswith(c)\<close> for a one-character prefix\<close>

definition startswith_char :: "nat \<Rightarrow> ustr \<Rightarrow> bool" where
  "startswith_char c s = (case s of [] \<Rightarrow> False | d # _ \<Rightarrow> d = c)"

fun is_prefix :: "ustr \<Rightarrow> ustr \<Rightarrow> bool" where
  "is_prefix [] s = True"
| "is_prefix (p # ps) [] = False"
| "is_prefix (p # ps) (c # cs) = (p = c \<and> is_prefix ps cs)"

text \<open>\<open>p in s\<close>: \<open>p\<close> occurs in \<open>s\<close> as a contiguous substring (the empty string always does).\<close>

fun contains :: "ustr \<Rightarrow> ustr \<Rightarrow> bool" where
  "contains p [] = (p = [])"
| "contains p (c # cs) = (is_prefix p (c # cs) \<or> contains p cs)"

subsection \<open>Integers as decimal text\<close>

fun dec_digits :: "nat \<Rightarrow> ustr" where
  "dec_digits n = (if n < 10 then [48 + n] else dec_digits (n div 10) @ [48 + n mod 10])"

declare dec_digits.simps [simp del]

text \<open>The grouping option \<open>,\<close> of the format mini-language, on digits given least significant first.\<close>

fun commas_rev :: "ustr \<Rightarrow> ustr" where
  "commas_rev (a # b # c # d # ds) = a # b # c # 44 # commas_rev (d # ds)"
| "commas_rev ds = ds"

definition group_nat :: "nat \<Rightarrow> ustr" where
  "group_nat n = rev (commas_rev (rev (dec_digits n)))"

text \<open>\<open>f"{k:,}"\<close> for an \<open>int\<close>\<close>

definition format_int :: "int \<Rightarrow> ustr" where
  "format_int k = (if k < 0 then 45 # group_nat (nat (- k)) else group_nat (nat k))"

text \<open>The value of a string of decimal digits (any Nd digits), most significant first.\<close>

definition digits_value :: "ustr \<Rightarrow> nat" where
  "digits_value ds = foldl (\<lambda>acc c. 10 * acc + the (decimal_value c)) 0 ds"

subsection \<open>binary64 arithmetic\<close>

fun bitlen_nat :: "nat \<Rightarrow> nat" where
  "bitlen_nat n = (if n = 0 then 0 else Suc (bitlen_nat (n div 2)))"

declare bitlen_nat.simps [simp del]

text \<open>For \<open>a > 0\<close>: the integer \<open>e\<close> with \<open>2 ^ e \<le> a < 2 ^ (e + 1)\<close>.\<close>

definition floor_log2 :: "rat \<Rightarrow> int" where
  "floor_log2 a =
     (if 1 \<le> a then int (bitlen_nat (nat \<lfloor>a\<rfloor>)) - 1
      else - int (bitlen_nat (nat (\<lceil>1 / a\<rceil> - 1))))"

definition round_half_even :: "rat \<Rightarrow> int" where
  "round_half_even x =
     (let f = \<lfloor>x\<rfloor>; r = x - of_int f
      in if r < 1 / 2 then f else if 1 / 2 < r then f + 1 else if even f then f else f + 1)"

text \<open>
  Round to nearest, ties to even, with a significand of 53 bits, the least quantum
  \<open>2 ^ -1074\<close> of the subnormal range, and overflow to infinity from \<open>2 ^ 1024\<close> on.
\<close>

definition round_double :: "rat \<Rightarrow> pyfloat" where
  "round_double x =
     (if x = 0 then Fin 0
      else let a = \<bar>x\<bar>;
               q = max (floor_log2 a - 52) (- 1074);
               v = of_int (round_half_even (a / power_int 2 q)) * power_int 2 q
           in if 2 ^ 1024 \<le> v then (if x < 0 then NInf else PInf)
              else Fin (if x < 0 then - v else v))"

text \<open>Unary minus, \<open>+\<close> and \<open>/\<close> of two floats (no division by zero occurs in the source).\<close>

fun float_neg :: "pyfloat \<Rightarrow> pyfloat" where
  "float_neg (Fin x) = Fin (- x)"
| "float_neg PInf = NInf"
| "float_neg NInf = PInf"
| "float_neg NaN = NaN"

fun float_add :: "pyfloat \<Rightarrow> pyfloat \<Rightarrow> pyfloat" where
  "float_add (Fin x) (Fin y) = round_double (x + y)"
| "float_add NaN _ = NaN"
| "float_add _ NaN = NaN"
| "float_add PInf NInf = NaN"
| "float_add NInf PInf = NaN"
| "float_add PInf _ = PInf"
| "float_add _ PInf = PInf"
| "float_add NInf _ = NInf"
| "float_add _ NInf = NInf"

text \<open>\<open>x >= 1000000\<close>\<close>

fun float_ge_million :: "pyfloat \<Rightarrow> bool" where
  "float_ge_million (Fin x) = (1000000 \<le> x)"
| "float_ge_million PInf = True"
| "float_ge_million NInf = False"
| "float_ge_million NaN = False"

text \<open>
  \<open>x % 1000000 == 0\<close>, which the source evaluates only when \<open>x >= 1000000\<close>: the
  remainder of a finite positive float is exact, that of infinity is NaN.
\<close>

fun float_mod_million_is_zero :: "pyfloat \<Rightarrow> bool" where
  "float_mod_million_is_zero (Fin x) = (x - 1000000 * of_int \<lfloor>x / 1000000\<rfloor> = 0)"
| "float_mod_million_is_zero _ = False"

text \<open>\<open>x / 1000000\<close>\<close>

fun float_div_million :: "pyfloat \<Rightarrow> pyfloat" where
  "float_div_million (Fin x) = round_double (x / 1000000)"
| "float_div_million f = f"

text \<open>\<open>int(x)\<close>: truncation toward zero; infinity and NaN raise.\<close>

fun py_int :: "pyfloat \<Rightarrow> py_error + int" where
  "py_int (Fin x) = Inr (if 0 \<le> x then \<lfloor>x\<rfloor> else \<lceil>x\<rceil>)"
| "py_int PInf = Inl OverflowError"
| "py_int NInf = Inl OverflowError"
| "py_int NaN = Inl ValueError"

subsection \<open>\<open>float(s)\<close> for a \<open>str\<close>\<close>

text \<open>
  CPython first maps the string to ASCII: a code point below 127 stays, other white space
  becomes a blank, another Nd digit becomes its ASCII digit, and anything else makes the
  conversion fail.
\<close>

definition to_ascii_char :: "nat \<Rightarrow> nat option" where
  "to_ascii_char c =
     (if c < 127 then Some c
      else if isspace c then Some 32
      else map_option (\<lambda>d. 48 + d) (decimal_value c))"

fun to_ascii :: "ustr \<Rightarrow> ustr option" where
  "to_ascii [] = Some []"
| "to_ascii (c # cs) =
     (case to_ascii_char c of None \<Rightarrow> None
      | Some a \<Rightarrow> (case to_ascii cs of None \<Rightarrow> None | Some as \<Rightarrow> Some (a # as)))"

definition ascii_space :: "nat \<Rightarrow> bool" where
  "ascii_space c = (c = 32 \<or> (9 \<le> c \<and> c \<le> 13))"

definition ascii_digit :: "nat \<Rightarrow> bool" where
  "ascii_digit c = (48 \<le> c \<and> c \<le> 57)"

definition strip_ascii :: "ustr \<Rightarrow> ustr" where
  "strip_ascii s = rev (dropWhile ascii_space (rev (dropWhile ascii_space s)))"

text \<open>
  An underscore (95) is accepted only between two digits and is then dropped; \<open>prev\<close> is
  the previous character, 0 at the start.
\<close>

fun drop_underscores :: "nat \<Rightarrow> ustr \<Rightarrow> ustr option" where
  "drop_underscores prev [] = (if prev = 95 then None else Some [])"
| "drop_underscores prev (c # cs) =
     (if c = 95 then (if ascii_digit prev then drop_underscores c cs else None)
      else if prev = 95 \<and> \<not> ascii_digit c then None
      else map_option ((#) c) (drop_underscores c cs))"

definition lower_ascii :: "nat \<Rightarrow> nat" where
  "lower_ascii c = (if 65 \<le> c \<and> c \<le> 90 then c + 32 else c)"

text \<open>\<open>inf\<close>, \<open>infinity\<close> and \<open>nan\<close> in any letter case, after the sign\<close>

definition parse_inf_nan :: "ustr \<Rightarrow> pyfloat option" where
  "parse_inf_nan s =
     (let l = map lower_ascii s
      in if l = [105, 110, 102] \<or> l = [105, 110, 102, 105, 110, 105, 116, 121] then Some PInf
         else if l = [110, 97, 110] then Some NaN
         else None)"

text \<open>
  The exponent part: \<open>e\<close> or \<open>E\<close>, an optional sign and at least one digit; when it is not
  of this form nothing is consumed. The result is the exponent and the rest of the input.
\<close>

definition parse_exponent :: "ustr \<Rightarrow> int \<times> ustr" where
  "parse_exponent s =
     (case s of
        [] \<Rightarrow> (0, s)
      | e # t \<Rightarrow>
          if e = 101 \<or> e = 69 then
            (case t of
               [] \<Rightarrow> (0, s)
             | g # u \<Rightarrow>
                 if (g = 43 \<or> g = 45) \<and> takeWhile ascii_digit u \<noteq> [] then
                   ((if g = 45 then - 1 else 1) * int (digits_value (takeWhile ascii_digit u)),
                    dropWhile ascii_digit u)
                 else if ascii_digit g then
                   (int (digits_value (takeWhile ascii_digit t)), dropWhile ascii_digit t)
                 else (0, s))
          else (0, s))"

text \<open>
  The unsigned decimal: digits, an optional point and digits, with at least one digit, then
  the optional exponent. \<open>None\<close> when no number starts here; otherwise its exact value and
  the unread rest.
\<close>

definition parse_decimal :: "ustr \<Rightarrow> (rat \<times> ustr) option" where
  "parse_decimal s =
     (let ip = takeWhile ascii_digit s;
          r1 = dropWhile ascii_digit s;
          fp = (case r1 of [] \<Rightarrow> [] | c # t \<Rightarrow> if c = 46 then takeWhile ascii_digit t else []);
          r2 = (case r1 of [] \<Rightarrow> [] | c # t \<Rightarrow> if c = 46 then dropWhile ascii_digit t else r1)
      in if ip = [] \<and> fp = [] then None
         else let (ex, r3) = parse_exponent r2
              in Some (of_nat (digits_value (ip @ fp)) * power_int 10 (ex - int (length fp)), r3))"

definition parse_signed :: "ustr \<Rightarrow> pyfloat option" where
  "parse_signed s =
     (let neg = startswith_char 45 s;
          body = (if neg \<or> startswith_char 43 s then tl s else s)
      in case parse_decimal body of
           Some (v, rest) \<Rightarrow> if rest = [] then Some (round_double (if neg then - v else v)) else None
         | None \<Rightarrow> map_option (\<lambda>f. if neg then float_neg f else f) (parse_inf_nan body))"

text \<open>\<open>float(s)\<close>: \<open>Inl ValueError\<close> when the string is not a number.\<close>

definition py_float :: "ustr \<Rightarrow> py_error + pyfloat" where
  "py_float s =
     (case to_ascii s of
        None \<Rightarrow> Inl ValueError
      | Some a \<Rightarrow>
          (case drop_underscores 0 (strip_ascii a) of
             None \<Rightarrow> Inl ValueError
           | Some u \<Rightarrow> (case parse_signed u of None \<Rightarrow> Inl ValueError | Some f \<Rightarrow> Inr f)))"

section \<open>The amount normalizer and the amount formatter\<close>

text \<open>
  \<open>re.findall(r'[<triangle>-]?[\d,]+', s)\<close>: the source uses the first match only.
  \<open>first_number\<close> is that leftmost match: at each position the optional sign is tried
  first and given up when no digit or comma follows it, and the run \<open>[\d,]+\<close> is greedy.
\<close>

definition is_numchar :: "nat \<Rightarrow> bool" where
  "is_numchar c = (is_decimal c \<or> c = 44)"

definition is_signchar :: "nat \<Rightarrow> bool" where
  "is_signchar c = (c = 9651 \<or> c = 45)"

fun first_number :: "ustr \<Rightarrow> ustr option" where
  "first_number [] = None"
| "first_number (c # cs) =
     (if is_signchar c \<and> takeWhile is_numchar cs \<noteq> [] then Some (c # takeWhile is_numchar cs)
      else if is_numchar c then Some (c # takeWhile is_numchar cs)
      else first_number cs)"

text \<open>
  \<open>clean_amount_value\<close>. The argument is \<open>None\<close> for a missing value (\<open>pd.isna\<close>).
\<close>

definition clean_amount_value :: "ustr option \<Rightarrow> ustr" where
  "clean_amount_value value =
     (case value of
        None \<Rightarrow> []
      | Some str_value \<Rightarrow>
          if str_value = [] then []
          else (case first_number str_value of
                  None \<Rightarrow> []
                | Some cleaned \<Rightarrow>
                    if startswith_char 9651 cleaned then 45 # tl cleaned else cleaned))"

text \<open>
  \<open>format_amount\<close>. The \<open>try\<close> block catches \<open>ValueError\<close> and \<open>TypeError\<close> and then returns
  the argument; any other exception leaves the function.
\<close>

definition format_amount :: "ustr \<Rightarrow> py_error + ustr" where
  "format_amount amount =
     (if amount = [] then Inr []
      else
        let clean_amount = remove_commas amount;
            is_negative = startswith_char 45 clean_amount;
            digits = (if is_negative then tl clean_amount else clean_amount)
        in case py_float digits of
             Inl _ \<Rightarrow> Inr amount
           | Inr num_value \<Rightarrow>
               (case (if float_ge_million num_value \<and> float_mod_million_is_zero num_value
                      then (case py_int (float_div_million num_value) of
                              Inl e \<Rightarrow> Inl e
                            | Inr k \<Rightarrow> Inr (if is_negative then format_int (k * - 1) else format_int k))
                      else (case py_int num_value of
                              Inl e \<Rightarrow> Inl e
                            | Inr k \<Rightarrow> Inr (if is_negative then 45 # format_int k else format_int k)))
                of Inl ValueError \<Rightarrow> Inr amount
                 | Inl e \<Rightarrow> Inl e
                 | Inr r \<Rightarrow> Inr r))"

section \<open>The account classifier\<close>

text \<open>The dataclass \<open>BSItem\<close>.\<close>

record bs_item =
  bs_level :: nat
  bs_name :: ustr
  bs_value :: ustr
  bs_note :: ustr

text \<open>
  \<open>re.findall(r'<mark>[0-9,\s]*', s)\<close> joined: every reference mark starts a match, which
  runs on over ASCII digits, commas and white space. \<open>inside\<close> says that the previous
  character belongs to a match.
\<close>

definition is_notechar :: "nat \<Rightarrow> bool" where
  "is_notechar c = (ascii_digit c \<or> c = 44 \<or> isspace c)"

fun note_scan :: "bool \<Rightarrow> ustr \<Rightarrow> ustr" where
  "note_scan inside [] = []"
| "note_scan inside (c # cs) =
     (if c = 8251 then c # note_scan True cs
      else if inside \<and> is_notechar c then c # note_scan True cs
      else note_scan False cs)"

definition extract_note_numbers :: "ustr option \<Rightarrow> ustr" where
  "extract_note_numbers value =
     (case value of
        None \<Rightarrow> []
      | Some s \<Rightarrow> if s = [] then [] else strip (note_scan False s))"

text \<open>
  \<open>_get_account_level\<close>: the total marker is the two characters U+5408 U+8A08; the seven
  major category names follow in the order of the source.
\<close>

definition total_marker :: ustr where
  "total_marker = [21512, 35336]"

definition major_categories :: "ustr list" where
  "major_categories =
     [[36039, 29987, 12398, 37096], [36000, 20661, 12398, 37096],
      [32020, 36039, 29987, 12398, 37096], [27969, 21205, 36039, 29987],
      [22266, 23450, 36039, 29987], [27969, 21205, 36000, 20661],
      [22266, 23450, 36000, 20661]]"

definition get_account_level :: "ustr \<Rightarrow> nat" where
  "get_account_level account_name =
     (if contains total_marker account_name then 1
      else if account_name \<in> set major_categories then 0
      else 2)"

text \<open>
  A value of the pattern table \<open>account_mapping\<close> is a list (whose members may or may not
  be strings), a single string, or something else. The table is a \<open>dict\<close>, iterated in
  insertion order: an association list.
\<close>

datatype pattern_elem = PatStr ustr | PatOther

datatype source_patterns = PatList "pattern_elem list" | PatSingle ustr | PatNeither

type_synonym account_mapping = "(ustr \<times> source_patterns) list"

text \<open>The inner loop over a list of patterns: does it reach its \<open>return\<close>?\<close>

fun list_hit :: "pattern_elem list \<Rightarrow> ustr \<Rightarrow> bool" where
  "list_hit [] s = False"
| "list_hit (PatStr p # ps) s = (if contains p s then True else list_hit ps s)"
| "list_hit (PatOther # ps) s = list_hit ps s"

fun patterns_hit :: "source_patterns \<Rightarrow> ustr \<Rightarrow> bool" where
  "patterns_hit (PatList ps) s = list_hit ps s"
| "patterns_hit (PatSingle p) s = contains p s"
| "patterns_hit PatNeither s = False"

text \<open>The outer loop over \<open>mapping.items()\<close>: the account at which the function returns.\<close>

fun search_mapping :: "account_mapping \<Rightarrow> ustr \<Rightarrow> ustr option" where
  "search_mapping [] s = None"
| "search_mapping ((bs_account, pats) # rest) s =
     (if patterns_hit pats s then Some bs_account else search_mapping rest s)"

text \<open>
  \<open>map_item_to_bs_account\<close>. Both arguments are \<open>None\<close> when missing (\<open>pd.isna\<close>). The
  amount is cleaned and formatted before the table is searched, so an exception of
  \<open>format_amount\<close> leaves the function whether or not a pattern matches.
\<close>

definition map_item_to_bs_account ::
    "account_mapping \<Rightarrow> ustr option \<Rightarrow> ustr option \<Rightarrow> py_error + bs_item option" where
  "map_item_to_bs_account mapping item_name amount =
     (case item_name of
        None \<Rightarrow> Inr None
      | Some nm \<Rightarrow>
          if nm = [] then Inr None
          else let item_name_str = strip nm
               in if item_name_str = [] then Inr None
                  else let note = extract_note_numbers amount;
                           clean_amount = clean_amount_value amount
                       in case format_amount clean_amount of
                            Inl e \<Rightarrow> Inl e
                          | Inr formatted_amount \<Rightarrow>
                              Inr (case search_mapping mapping item_name_str of
                                     None \<Rightarrow> None
                                   | Some bs_account \<Rightarrow>
                                       Some \<lparr>bs_level = get_account_level bs_account,
                                             bs_name = bs_account,
                                             bs_value = formatted_amount,
                                             bs_note = note\<rparr>))"

section \<open>The aggregator\<close>

text \<open>
  One pass of the summation loop over an item: \<open>None\<close> when the item is skipped (empty or
  blank value, or \<open>float\<close> raises \<open>ValueError\<close>), otherwise the amount that is added.
\<close>

definition item_amount :: "ustr \<Rightarrow> pyfloat option" where
  "item_amount v =
     (if v \<noteq> [] \<and> strip v \<noteq> [] then
        (let clean_value = remove_commas v
         in if startswith_char 45 clean_value then
              (case py_float (tl clean_value) of Inl _ \<Rightarrow> None | Inr a \<Rightarrow> Some (float_neg a))
            else (case py_float clean_value of Inl _ \<Rightarrow> None | Inr a \<Rightarrow> Some a))
      else None)"

text \<open>The loop state is \<open>(total_amount, has_valid_amount)\<close>, initially \<open>(0, False)\<close>.\<close>

fun sum_items :: "pyfloat \<times> bool \<Rightarrow> bs_item list \<Rightarrow> pyfloat \<times> bool" where
  "sum_items acc [] = acc"
| "sum_items (total_amount, has_valid_amount) (item # items) =
     (case item_amount (bs_value item) of
        None \<Rightarrow> sum_items (total_amount, has_valid_amount) items
      | Some amount \<Rightarrow> sum_items (float_add total_amount amount, True) items)"

text \<open>\<open>f"{x:,.0f}"\<close> for a finite float: rounded half to even, the sign kept.\<close>

definition format_f0 :: "rat \<Rightarrow> ustr" where
  "format_f0 x =
     (if x < 0 then 45 # group_nat (nat (round_half_even (- x)))
      else group_nat (nat (round_half_even x)))"

text \<open>
  \<open>f"{int(t):,}" if t == int(t) else f"{t:,.0f}"\<close>: the condition is evaluated first, and
  \<open>int\<close> raises on infinity and NaN, outside any \<open>try\<close>.
\<close>

definition format_total :: "pyfloat \<Rightarrow> py_error + ustr" where
  "format_total t =
     (case py_int t of
        Inl e \<Rightarrow> Inl e
      | Inr k \<Rightarrow>
          (case t of
             Fin x \<Rightarrow> if x = of_int k then Inr (format_int k) else Inr (format_f0 x)
           | _ \<Rightarrow> Inr (format_int k)))"

text \<open>
  The first loop of \<open>_build_balance_sheet_structure_with_grouping\<close>, which fills
  \<open>consolidated_items\<close>. Dictionaries are association lists in insertion order.
\<close>

fun consolidate :: "(ustr \<times> bs_item list) list \<Rightarrow> py_error + (ustr \<times> bs_item) list" where
  "consolidate [] = Inr []"
| "consolidate ((account_name, items_list) # rest) =
     (if items_list = [] then consolidate rest
      else case sum_items (Fin 0, False) items_list of
             (total_amount, has_valid_amount) \<Rightarrow>
               if has_valid_amount then
                 (case format_total total_amount of
                    Inl e \<Rightarrow> Inl e
                  | Inr formatted_amount \<Rightarrow>
                      (case consolidate rest of
                         Inl e \<Rightarrow> Inl e
                       | Inr consolidated_items \<Rightarrow>
                           Inr ((account_name,
                                 \<lparr>bs_level = bs_level (hd items_list),
                                  bs_name = account_name,
                                  bs_value = formatted_amount,
                                  bs_note = []\<rparr>) # consolidated_items)))
               else consolidate rest)"

section \<open>The report layout builder\<close>

text \<open>
  The chart-of-accounts template \<open>bs_structure\<close>: a section maps category names to a
  nested dictionary, a list of leaf names, or anything else (\<open>None\<close> in the default); a
  nested dictionary maps sub-category names to a list of leaf names or anything else.
\<close>

datatype sub_node = SubList "ustr list" | SubOther

datatype cat_node = CatDict "(ustr \<times> sub_node) list" | CatList "ustr list" | CatOther

type_synonym bs_structure = "(ustr \<times> (ustr \<times> cat_node) list) list"

definition add_item_row_with_grouping :: "ustr \<Rightarrow> (ustr \<times> bs_item) list \<Rightarrow> nat \<Rightarrow> ustr list list" where
  "add_item_row_with_grouping nm item_dict lvl =
     (let row = replicate 25 [];
          row = (if lvl = 1 then row[0 := nm]
                 else if lvl = 2 then row[1 := nm]
                 else if lvl = 3 then row[2 := nm]
                 else row);
          row = (case map_of item_dict nm of
                   None \<Rightarrow> row
                 | Some item \<Rightarrow>
                     if bs_value item \<noteq> [] then row[9 := [34] @ bs_value item @ [34]] else row)
      in [row])"

fun subcategory_rows :: "(ustr \<times> bs_item) list \<Rightarrow> ustr \<times> sub_node \<Rightarrow> ustr list list" where
  "subcategory_rows item_dict (subcat, SubList items) =
     ([[], [], subcat] @ replicate 22 []) #
       concat (map (\<lambda>nm. add_item_row_with_grouping nm item_dict 3) items)"
| "subcategory_rows item_dict (subcat, SubOther) = add_item_row_with_grouping subcat item_dict 2"

fun category_rows :: "(ustr \<times> bs_item) list \<Rightarrow> ustr \<times> cat_node \<Rightarrow> ustr list list" where
  "category_rows item_dict (category, CatDict subcategories) =
     ([[], category] @ replicate 23 []) # concat (map (subcategory_rows item_dict) subcategories)"
| "category_rows item_dict (category, CatList subcategories) =
     ([[], category] @ replicate 23 []) #
       concat (map (\<lambda>nm. add_item_row_with_grouping nm item_dict 3) subcategories)"
| "category_rows item_dict (category, CatOther) = add_item_row_with_grouping category item_dict 1"

definition build_section_with_grouping ::
    "bs_structure \<Rightarrow> ustr \<Rightarrow> (ustr \<times> bs_item) list \<Rightarrow> ustr list list" where
  "build_section_with_grouping bs section_name item_dict =
     (let structure = (case map_of bs section_name of None \<Rightarrow> [] | Some s \<Rightarrow> s)
      in ([section_name] @ replicate 24 []) # concat (map (category_rows item_dict) structure))"

text \<open>The two section names of the source: U+8CC7 U+7523 U+306E U+90E8 and U+8CA0 U+50B5 U+306E U+90E8.\<close>

definition assets_section :: ustr where
  "assets_section = [36039, 29987, 12398, 37096]"

definition liabilities_section :: ustr where
  "liabilities_section = [36000, 20661, 12398, 37096]"

definition build_balance_sheet_structure_with_grouping ::
    "bs_structure \<Rightarrow> (ustr \<times> bs_item list) list \<Rightarrow> py_error + ustr list list" where
  "build_balance_sheet_structure_with_grouping bs bs_items_dict =
     (case consolidate bs_items_dict of
        Inl e \<Rightarrow> Inl e
      | Inr consolidated_items \<Rightarrow>
          Inr (build_section_with_grouping bs assets_section consolidated_items
               @ [replicate 25 []]
               @ build_section_with_grouping bs liabilities_section consolidated_items))"

text \<open>
  The sibling path \<open>_add_item_row\<close>, which no entry point calls: it sums the matching
  items itself and renders a negative total with the triangle glyph. Its test
  \<open>is_integer()\<close> does not raise; \<open>int\<close> is applied to a negative total only, so only minus
  infinity raises, while plus infinity and NaN print as \<open>inf\<close> and \<open>nan\<close>.
\<close>

definition format_total_glyph :: "pyfloat \<Rightarrow> py_error + ustr" where
  "format_total_glyph t =
     (case t of
        Fin x \<Rightarrow>
          if x < 0 then Inr (9651 # group_nat (nat \<bar>if 0 \<le> x then \<lfloor>x\<rfloor> else \<lceil>x\<rceil>\<bar>))
          else if x = of_int \<lfloor>x\<rfloor> then Inr (format_int \<lfloor>x\<rfloor>)
          else Inr (format_f0 x)
      | NaN \<Rightarrow> Inr [110, 97, 110]
      | PInf \<Rightarrow> Inr [105, 110, 102]
      | NInf \<Rightarrow> Inl OverflowError)"

definition add_item_row :: "ustr \<Rightarrow> (ustr \<times> bs_item) list \<Rightarrow> nat \<Rightarrow> py_error + ustr list list" where
  "add_item_row nm item_dict lvl =
     (let matching_items = map snd (filter (\<lambda>(key, item). key = nm) item_dict);
          row = replicate 25 [];
          row = (if lvl = 1 then row[0 := nm]
                 else if lvl = 2 then row[1 := nm]
                 else if lvl = 3 then row[2 := nm]
                 else row)
      in if matching_items = [] then Inr [row]
         else case sum_items (Fin 0, False) matching_items of
                (total_amount, has_valid_amount) \<Rightarrow>
                  if has_valid_amount then
                    (case format_total_glyph total_amount of
                       Inl e \<Rightarrow> Inl e
                     | Inr formatted_amount \<Rightarrow> Inr [row[9 := [34] @ formatted_amount @ [34]]])
                  else Inr [row])"

text \<open>
  The sibling \<open>_build_section\<close>, reached from \<open>_build_balance_sheet_structure\<close> only: the
  same walk over the template with \<open>_add_item_row\<close>, where the leaves of a direct list are
  placed at level 2. \<open>extend_rows\<close> is \<open>rows.extend(...)\<close> in a loop that an exception ends.
\<close>

fun extend_rows :: "('a \<Rightarrow> py_error + ustr list list) \<Rightarrow> 'a list \<Rightarrow> py_error + ustr list list" where
  "extend_rows f [] = Inr []"
| "extend_rows f (x # xs) =
     (case f x of
        Inl e \<Rightarrow> Inl e
      | Inr r \<Rightarrow> (case extend_rows f xs of Inl e \<Rightarrow> Inl e | Inr rs \<Rightarrow> Inr (r @ rs)))"

fun plain_subcategory_rows ::
    "(ustr \<times> bs_item) list \<Rightarrow> ustr \<times> sub_node \<Rightarrow> py_error + ustr list list" where
  "plain_subcategory_rows item_dict (subcat, SubList items) =
     (case extend_rows (\<lambda>nm. add_item_row nm item_dict 3) items of
        Inl e \<Rightarrow> Inl e
      | Inr rs \<Rightarrow> Inr (([[], [], subcat] @ replicate 22 []) # rs))"
| "plain_subcategory_rows item_dict (subcat, SubOther) = add_item_row subcat item_dict 2"

fun plain_category_rows ::
    "(ustr \<times> bs_item) list \<Rightarrow> ustr \<times> cat_node \<Rightarrow> py_error + ustr list list" where
  "plain_category_rows item_dict (category, CatDict subcategories) =
     (case extend_rows (plain_subcategory_rows item_dict) subcategories of
        Inl e \<Rightarrow> Inl e
      | Inr rs \<Rightarrow> Inr (([[], category] @ replicate 23 []) # rs))"
| "plain_category_rows item_dict (category, CatList subcategories) =
     (case extend_rows (\<lambda>nm. add_item_row nm item_dict 2) subcategories of
        Inl e \<Rightarrow> Inl e
      | Inr rs \<Rightarrow> Inr (([[], category] @ replicate 23 []) # rs))"
| "plain_category_rows item_dict (category, CatOther) = add_item_row category item_dict 1"

definition build_section ::
    "bs_structure \<Rightarrow> ustr \<Rightarrow> (ustr \<times> bs_item) list \<Rightarrow> py_error + ustr list list" where
  "build_section bs section_name item_dict =
     (let structure = (case map_of bs section_name of None \<Rightarrow> [] | Some s \<Rightarrow> s)
      in case extend_rows (plain_category_rows item_dict) structure of
           Inl e \<Rightarrow> Inl e
         | Inr rs \<Rightarrow> Inr (([section_name] @ replicate 24 []) # rs))"

section \<open>The row standardizer\<close>

definition standardize_row :: "ustr list \<Rightarrow> ustr list" where
  "standardize_row row =
     (if length row < 25 then row @ replicate (25 - length row) []
      else if 25 < length row then take 25 row
      else row)"

definition convert_to_csv_format :: "ustr list list \<Rightarrow> ustr list list" where
  "convert_to_csv_format bs_table = map standardize_row bs_table"

section \<open>The entry point\<close>

text \<open>
  The configuration: \<open>bs_config['account_mapping']\<close> and \<open>bs_config['structure']\<close>, whose
  default is the chart of the source (the names as code points, in the order of the source).
\<close>

record config =
  cfg_account_mapping :: account_mapping
  cfg_structure :: bs_structure

definition default_structure :: bs_structure where
  "default_structure =
    [([36039, 29987, 12398, 37096],
       [([27969, 21205, 36039, 29987], CatList
         [[29694, 37329, 21450, 12403, 38928, 37329],
          [12467, 12540, 12523, 12525, 12540, 12531],
          [21463, 21462, 25163, 24418, 21450, 12403, 22770, 25499, 37329],
          [26377, 20385, 35388, 21048],
          [26842, 21368, 36039, 29987],
          [21942, 26989, 36024, 20184, 37329],
          [37504, 34892, 26989, 12395, 12362, 12369, 12427, 36024, 20986, 37329],
          [12381, 12398, 20182],
          [36024, 20498, 24341, 24403, 37329],
          [27969, 21205, 36039, 29987, 21512, 35336]]),
        ([22266, 23450, 36039, 29987], CatDict
         [([26377, 24418, 22266, 23450, 36039, 29987], SubList
            [[24314, 29289, 21450, 12403, 27083, 31689, 29289, 65288, 32020, 38989, 65289],
             [24037, 20855, 12289, 22120, 20855, 21450, 12403, 20633, 21697, 65288, 32020, 38989, 65289],
             [22303, 22320],
             [12522, 12540, 12473, 36039, 29987, 65288, 32020, 38989, 65289],
             [24314, 35373, 20206, 21208, 23450],
             [12381, 12398, 20182, 65288, 32020, 38989, 65289],
             [26377, 24418, 22266, 23450, 36039, 29987, 21512, 35336]]),
          ([28961, 24418, 22266, 23450, 36039, 29987], SubList
            [[12398, 12428, 12435],
             [12477, 12501, 12488, 12454, 12456, 12450],
             [12522, 12540, 12473, 36039, 29987],
             [12381, 12398, 20182],
             [28961, 24418, 22266, 23450, 36039, 29987, 21512, 35336]]),
          ([25237, 36039, 12381, 12398, 20182, 12398, 36039, 29987], SubList
            [[25237, 36039, 26377, 20385, 35388, 21048],
             [36864, 32887, 32102, 20184, 12395, 20418, 12427, 36039, 29987],
             [32368, 24310, 31246, 37329, 36039, 29987],
             [24046, 20837, 20445, 35388, 37329],
             [24215, 33303, 36035, 20511, 20206, 21208, 23450],
             [12381, 12398, 20182],
             [36024, 20498, 24341, 24403, 37329],
             [25237, 36039, 12381, 12398, 20182, 12398, 36039, 29987, 21512, 35336]])]),
        ([22266, 23450, 36039, 29987, 21512, 35336], CatOther),
        ([36039, 29987, 21512, 35336], CatOther)]),
     ([36000, 20661, 12398, 37096],
       [([27969, 21205, 36000, 20661], CatList
         [[25903, 25173, 25163, 24418, 21450, 12403, 36023, 25499, 37329],
          [37504, 34892, 26989, 12395, 12362, 12369, 12427, 38928, 37329],
          [30701, 26399, 20511, 20837, 37329],
          [49, 24180, 20869, 36820, 28168, 20104, 23450, 12398, 38263, 26399, 20511, 20837, 37329],
          [49, 24180, 20869, 20767, 36996, 20104, 23450, 12398, 31038, 20661],
          [12467, 12510, 12540, 12471, 12515, 12523, 12539, 12506, 12540, 12497, 12540],
          [12522, 12540, 12473, 20661, 21209],
          [26410, 25173, 27861, 20154, 31246, 31561],
          [22865, 32004, 36000, 20661],
          [36062, 19982, 24341, 24403, 37329],
          [24215, 33303, 38281, 37782, 25613, 22833, 24341, 24403, 37329],
          [12509, 12452, 12531, 12488, 24341, 24403, 37329],
          [35373, 20633, 38306, 20418, 25903, 25173, 25163, 24418],
          [12381, 12398, 20182],
          [27969, 21205, 36000, 20661, 21512, 35336]]),
        ([22266, 23450, 36000, 20661], CatList
         [[31038, 20661],
          [38263, 26399, 20511, 20837, 37329],
          [12522, 12540, 12473, 20661, 21209],
          [32368, 24310, 31246, 37329, 36000, 20661],
          [24441, 21729, 36864, 32887, 24944, 21172, 24341, 24403, 37329],
          [24215, 33303, 38281, 37782, 25613, 22833, 24341, 24403, 37329],
          [20598, 30330, 25613, 22833, 24341, 24403, 37329],
          [21033, 24687, 36820, 36996, 25613, 22833, 24341, 24403, 37329],
          [36864, 32887, 32102, 20184, 12395, 20418, 12427, 36000, 20661],
          [36039, 29987, 38500, 21435, 20661, 21209],
          [38263, 26399, 38928, 12426, 20445, 35388, 37329],
          [20445, 38522, 22865, 32004, 28310, 20633, 37329],
          [12381, 12398, 20182],
          [22266, 23450, 36000, 20661, 21512, 35336]]),
        ([36000, 20661, 21512, 35336], CatOther)])]"

text \<open>
  The input frame. A column has a name and a dtype; the model covers frames whose cells
  are strings or missing (a column of a numeric dtype then holds missing cells only), with
  string column names, one cell per column in every row.
\<close>

datatype dtype = Object | Int64 | Float64 | OtherDtype

datatype cell = NA | Str ustr

record dataframe =
  columns :: "(ustr \<times> dtype) list"
  rows :: "cell list list"

definition column_names :: "dataframe \<Rightarrow> ustr list" where
  "column_names df = map fst (columns df)"

fun index_of :: "ustr \<Rightarrow> ustr list \<Rightarrow> nat option" where
  "index_of nm [] = None"
| "index_of nm (c # cs) = (if c = nm then Some 0 else map_option Suc (index_of nm cs))"

definition cell_at :: "cell list \<Rightarrow> nat option \<Rightarrow> cell" where
  "cell_at row i = (case i of None \<Rightarrow> NA | Some j \<Rightarrow> if j < length row then row ! j else NA)"

text \<open>\<open>row[col]\<close> for a row of the frame\<close>

definition row_get :: "dataframe \<Rightarrow> cell list \<Rightarrow> ustr \<Rightarrow> cell" where
  "row_get df row col = cell_at row (index_of col (column_names df))"

text \<open>
  \<open>series.str.contains(pat, na=False, case=False)\<close> for the two patterns of the source,
  \<open>'CurrentYear|Current'\<close> and \<open>'Current'\<close>: both hold exactly when \<open>current\<close> occurs with its
  letters in either case.
\<close>

definition current_lower :: ustr where
  "current_lower = [99, 117, 114, 114, 101, 110, 116]"

definition current_cased :: ustr where
  "current_cased = [67, 117, 114, 114, 101, 110, 116]"

definition contains_current_nocase :: "cell \<Rightarrow> bool" where
  "contains_current_nocase c =
     (case c of NA \<Rightarrow> False | Str s \<Rightarrow> contains current_lower (map lower_ascii s))"

text \<open>\<open>'Instant' in col or 'Quarter' in col\<close>\<close>

definition is_instant_col :: "ustr \<Rightarrow> bool" where
  "is_instant_col col =
     (contains [73, 110, 115, 116, 97, 110, 116] col \<or> contains [81, 117, 97, 114, 116, 101, 114] col)"

text \<open>
  The column names \<open>context_id_col\<close> (U+30B3 U+30F3 U+30C6 U+30AD U+30B9 U+30C8 I D) and
  \<open>relative_year_col\<close>, and the two period values compared with the latter.
\<close>

definition context_id_col :: ustr where
  "context_id_col = [12467, 12531, 12486, 12461, 12473, 12488, 73, 68]"

definition relative_year_col :: ustr where
  "relative_year_col = [30456, 23550, 24180, 24230]"

definition current_period_values :: "ustr list" where
  "current_period_values = [[24403, 26399], [24403, 26399, 26411]]"

text \<open>\<open>str(x)\<close> of a cell: a missing value prints as \<open>nan\<close>.\<close>

definition str_of_cell :: "cell \<Rightarrow> ustr" where
  "str_of_cell c = (case c of NA \<Rightarrow> [110, 97, 110] | Str s \<Rightarrow> s)"

definition dtype_of :: "dataframe \<Rightarrow> ustr \<Rightarrow> dtype" where
  "dtype_of df col = (case map_of (columns df) col of None \<Rightarrow> OtherDtype | Some d \<Rightarrow> d)"

text \<open>
  The third filter: a time-point column takes part when its first cell contains
  \<open>Current\<close>; the masks are joined, and the frame is filtered only if some row remains.
\<close>

definition instant_mask :: "dataframe \<Rightarrow> cell list \<Rightarrow> bool" where
  "instant_mask df row =
     list_ex (\<lambda>col. (case rows df of
                        [] \<Rightarrow> False
                      | r0 # _ \<Rightarrow> contains current_cased (str_of_cell (row_get df r0 col)))
                   \<and> contains_current_nocase (row_get df row col))
             (filter is_instant_col (column_names df))"

text \<open>
  The selection of the current period, \<open>current_year_df\<close>. The \<open>.str\<close> accessor raises
  \<open>AttributeError\<close> on a column that is not of dtype object.
\<close>

definition filter_current_year :: "dataframe \<Rightarrow> py_error + dataframe" where
  "filter_current_year df =
     (if context_id_col \<in> set (column_names df) then
        (if dtype_of df context_id_col = Object then
           Inr (df\<lparr>rows := filter (\<lambda>row. contains_current_nocase (row_get df row context_id_col)) (rows df)\<rparr>)
         else Inl AttributeError)
      else if relative_year_col \<in> set (column_names df) then
        Inr (df\<lparr>rows := filter (\<lambda>row. (case row_get df row relative_year_col of
                                           NA \<Rightarrow> False
                                         | Str s \<Rightarrow> s \<in> set current_period_values)) (rows df)\<rparr>)
      else if list_ex is_instant_col (column_names df) then
        (if list_ex (instant_mask df) (rows df)
         then Inr (df\<lparr>rows := filter (instant_mask df) (rows df)\<rparr>)
         else Inr df)
      else Inr df)"

text \<open>
  \<open>_detect_item_name_column\<close>: the candidate names in priority order, then the first column
  whose name contains a keyword, then the first column of dtype object.
\<close>

definition item_name_candidates :: "ustr list" where
  "item_name_candidates =
     [[38917, 30446, 21517], [31185, 30446, 21517], [21208, 23450, 31185, 30446],
      [69, 108, 101, 109, 101, 110, 116], [69, 108, 101, 109, 101, 110, 116, 78, 97, 109, 101]]"

definition item_name_keywords :: "ustr list" where
  "item_name_keywords =
     [[38917, 30446], [31185, 30446], [21208, 23450], [69, 108, 101, 109, 101, 110, 116]]"

definition detect_item_name_column :: "dataframe \<Rightarrow> ustr option" where
  "detect_item_name_column df =
     (case find (\<lambda>candidate. candidate \<in> set (column_names df)) item_name_candidates of
        Some c \<Rightarrow> Some c
      | None \<Rightarrow>
          (case find (\<lambda>col. list_ex (\<lambda>pattern. contains pattern col) item_name_keywords)
                     (column_names df) of
             Some c \<Rightarrow> Some c
           | None \<Rightarrow> map_option fst (find (\<lambda>(col, d). d = Object) (columns df))))"

text \<open>
  \<open>_detect_value_column\<close>: candidates, keywords, then the first column that is numeric by
  dtype or, for dtype object, has more than half of its first ten present values accepted
  by \<open>float\<close> after commas are removed, the triangle is replaced by a minus and the ends
  are stripped.
\<close>

definition value_candidates :: "ustr list" where
  "value_candidates =
     [[20516], [37329, 38989], [86, 97, 108, 117, 101], [65, 109, 111, 117, 110, 116], [27531, 39640]]"

definition value_keywords :: "ustr list" where
  "value_keywords = [[20516], [37329, 38989], [86, 97, 108, 117, 101], [65, 109, 111, 117, 110, 116]]"

definition column_cells :: "dataframe \<Rightarrow> ustr \<Rightarrow> cell list" where
  "column_cells df col = map (\<lambda>row. row_get df row col) (rows df)"

definition looks_numeric :: "cell \<Rightarrow> bool" where
  "looks_numeric c =
     (case py_float (strip (map (\<lambda>x. if x = 9651 then 45 else x) (remove_commas (str_of_cell c)))) of
        Inl _ \<Rightarrow> False
      | Inr _ \<Rightarrow> True)"

definition numeric_column :: "dataframe \<Rightarrow> ustr \<times> dtype \<Rightarrow> bool" where
  "numeric_column df cd =
     (case cd of (col, d) \<Rightarrow>
        if d = Int64 \<or> d = Float64 then True
        else if d = Object then
          (let sample_values = take 10 (filter (\<lambda>c. c \<noteq> NA) (column_cells df col));
               numeric_count = length (filter looks_numeric sample_values)
           in length sample_values < 2 * numeric_count)
        else False)"

definition detect_value_column :: "dataframe \<Rightarrow> ustr option" where
  "detect_value_column df =
     (case find (\<lambda>candidate. candidate \<in> set (column_names df)) value_candidates of
        Some c \<Rightarrow> Some c
      | None \<Rightarrow>
          (case find (\<lambda>col. list_ex (\<lambda>pattern. contains pattern col) value_keywords)
                     (column_names df) of
             Some c \<Rightarrow> Some c
           | None \<Rightarrow> map_option fst (find (numeric_column df) (columns df))))"

text \<open>\<open>bs_items_dict[key].append(bs_item)\<close>, creating the list at the first use of a key.\<close>

fun dict_append :: "(ustr \<times> bs_item list) list \<Rightarrow> ustr \<Rightarrow> bs_item \<Rightarrow> (ustr \<times> bs_item list) list" where
  "dict_append [] key item = [(key, [item])]"
| "dict_append ((k, items) # rest) key item =
     (if k = key then (k, items @ [item]) # rest else (k, items) # dict_append rest key item)"

text \<open>
  The loop over the rows: each row is given as the label and the value handed to the
  classifier; an exception of the classifier ends the loop.
\<close>

fun group_items ::
    "account_mapping \<Rightarrow> (ustr \<times> bs_item list) list \<Rightarrow> (ustr \<times> ustr) list
       \<Rightarrow> py_error + (ustr \<times> bs_item list) list" where
  "group_items mapping bs_items_dict [] = Inr bs_items_dict"
| "group_items mapping bs_items_dict ((nm, v) # rest) =
     (case map_item_to_bs_account mapping (Some nm) (Some v) of
        Inl e \<Rightarrow> Inl e
      | Inr None \<Rightarrow> group_items mapping bs_items_dict rest
      | Inr (Some bs_item) \<Rightarrow>
          group_items mapping (dict_append bs_items_dict (bs_name bs_item) bs_item) rest)"

text \<open>The label and the value of a row: a missing cell gives the empty string.\<close>

definition row_item :: "dataframe \<Rightarrow> ustr \<Rightarrow> ustr \<Rightarrow> cell list \<Rightarrow> ustr \<times> ustr" where
  "row_item df item_name_col value_col row =
     ((case row_get df row item_name_col of NA \<Rightarrow> [] | Str s \<Rightarrow> s),
      (case row_get df row value_col of NA \<Rightarrow> [] | Str s \<Rightarrow> s))"

text \<open>Classification, grouping, consolidation, layout and standardization of raw items.\<close>

definition transform_items :: "config \<Rightarrow> (ustr \<times> ustr) list \<Rightarrow> py_error + ustr list list" where
  "transform_items cfg items =
     (case group_items (cfg_account_mapping cfg) [] items of
        Inl e \<Rightarrow> Inl e
      | Inr bs_items_dict \<Rightarrow>
          (case build_balance_sheet_structure_with_grouping (cfg_structure cfg) bs_items_dict of
             Inl e \<Rightarrow> Inl e
           | Inr bs_table \<Rightarrow> Inr (convert_to_csv_format bs_table)))"

text \<open>
  \<open>transform_to_balance_sheet\<close>. A column name that is the empty string is falsy, so it
  counts as not found.
\<close>

definition transform_to_balance_sheet :: "config \<Rightarrow> dataframe \<Rightarrow> py_error + ustr list list" where
  "transform_to_balance_sheet cfg df =
     (case filter_current_year df of
        Inl e \<Rightarrow> Inl e
      | Inr current_year_df \<Rightarrow>
          (case (detect_item_name_column current_year_df, detect_value_column current_year_df) of
             (Some item_name_col, Some value_col) \<Rightarrow>
               if item_name_col = [] \<or> value_col = [] then Inr (convert_to_csv_format [])
               else transform_items cfg
                      (map (row_item current_year_df item_name_col value_col) (rows current_year_df))
           | _ \<Rightarrow> Inr (convert_to_csv_format [])))"

section \<open>Definitions that follow the specification's words\<close>

text \<open>
  The classifier as the specification describes it: the string patterns configured for an
  account (a single string, or the string members of a list), and the first account in
  table order one of whose patterns occurs in the label.
\<close>

fun pattern_strings :: "source_patterns \<Rightarrow> ustr list" where
  "pattern_strings (PatList ps) = concat (map (\<lambda>e. case e of PatStr p \<Rightarrow> [p] | PatOther \<Rightarrow> []) ps)"
| "pattern_strings (PatSingle p) = [p]"
| "pattern_strings PatNeither = []"

definition first_matching_account :: "account_mapping \<Rightarrow> ustr \<Rightarrow> ustr option" where
  "first_matching_account mapping label =
     map_option fst (find (\<lambda>entry. list_ex (\<lambda>p. contains p label) (pattern_strings (snd entry))) mapping)"

text \<open>
  The amounts of a group as the specification sums them, as numbers: an item whose value
  the aggregation loop skips counts as zero, and an item takes part as a whole number
  when its value parses to a finite float without a fractional part.
\<close>

definition whole_or_skipped :: "ustr \<Rightarrow> bool" where
  "whole_or_skipped v =
     (case item_amount v of None \<Rightarrow> True | Some (Fin q) \<Rightarrow> q = of_int \<lfloor>q\<rfloor> | Some _ \<Rightarrow> False)"

definition whole_value :: "ustr \<Rightarrow> int" where
  "whole_value v = (case item_amount v of Some (Fin q) \<Rightarrow> \<lfloor>q\<rfloor> | _ \<Rightarrow> 0)"

definition magnitude :: "ustr \<Rightarrow> int" where
  "magnitude v = (case item_amount v of Some (Fin q) \<Rightarrow> \<bar>\<lfloor>q\<rfloor>\<bar> | _ \<Rightarrow> 0)"

section \<open>Concrete inputs\<close>

text \<open>A frame with the columns of the first label and value candidates and no rows.\<close>

definition zero_row_frame :: dataframe where
  "zero_row_frame = \<lparr>columns = [([38917, 30446, 21517], Object), ([20516], Object)], rows = []\<rparr>"

definition default_config :: config where
  "default_config = \<lparr>cfg_account_mapping = [], cfg_structure = default_structure\<rparr>"

text \<open>
  The account of the first scenario (U+73FE U+91D1 U+53CA U+3073 U+9810 U+91D1), a pattern
  table that maps this name to itself, and the two raw items \<open>1,234,567\<close> and \<open>2,000,000\<close>.
\<close>

definition cash :: ustr where
  "cash = [29694, 37329, 21450, 12403, 38928, 37329]"

definition cash_mapping :: account_mapping where
  "cash_mapping = [(cash, PatSingle cash)]"

definition cash_config :: config where
  "cash_config = \<lparr>cfg_account_mapping = cash_mapping, cfg_structure = default_structure\<rparr>"

definition cash_rows :: "(ustr \<times> ustr) list" where
  "cash_rows = [(cash, [49, 44, 50, 51, 52, 44, 53, 54, 55]), (cash, [50, 44, 48, 48, 48, 44, 48, 48, 48])]"

text \<open>
  The second scenario: the raw label U+5EFA U+7269 with the value \<open>500,000\<close> behind the
  triangle, classified by a list pattern to the first leaf of the tangible fixed assets.
\<close>

definition building :: ustr where
  "building = [24314, 29289]"

definition building_account :: ustr where
  "building_account = [24314, 29289, 21450, 12403, 27083, 31689, 29289, 65288, 32020, 38989, 65289]"

definition building_config :: config where
  "building_config =
     \<lparr>cfg_account_mapping = [(building_account, PatList [PatStr building])],
      cfg_structure = default_structure\<rparr>"

definition building_rows :: "(ustr \<times> ustr) list" where
  "building_rows = [(building, [9651, 53, 48, 48, 44, 48, 48, 48])]"

text \<open>A value of 310 digits, the number \<open>10 ^ 309\<close>, and frames with one row.\<close>

definition big_amount :: ustr where
  "big_amount = 49 # replicate 309 48"

definition label_value_columns :: "(ustr \<times> dtype) list" where
  "label_value_columns = [([38917, 30446, 21517], Object), ([20516], Object)]"

definition overflow_frame :: dataframe where
  "overflow_frame = \<lparr>columns = label_value_columns, rows = [[Str cash, Str big_amount]]\<rparr>"

definition one_row_frame :: dataframe where
  "one_row_frame =
     \<lparr>columns = label_value_columns, rows = [[Str cash, Str [49, 44, 50, 51, 52, 44, 53, 54, 55]]]\<rparr>"

text \<open>A pattern table with three accounts, for the classifier.\<close>

definition three_accounts :: account_mapping where
  "three_accounts =
     [([88], PatList [PatOther, PatStr [122]]), ([89], PatSingle [97, 98]), ([90], PatSingle [97])]"

text \<open>
  The first category of the assets section, a direct list of leaves (U+6D41 U+52D5 U+8CC7
  U+7523), and a template that holds this category with its first two leaves only.
\<close>

definition current_assets :: ustr where
  "current_assets = [27969, 21205, 36039, 29987]"

definition two_leaf_structure :: bs_structure where
  "two_leaf_structure =
     [(assets_section, [(current_assets, CatList [cash, [12467, 12540, 12523, 12525, 12540, 12531]])])]"

text \<open>The raw values \<open>9007199254740992\<close> (the number \<open>2 ^ 53\<close>), \<open>1\<close> and \<open>1\<close> in two orders.\<close>

definition big_first_rows :: "(ustr \<times> ustr) list" where
  "big_first_rows =
     [(cash, [57, 48, 48, 55, 49, 57, 57, 50, 53, 52, 55, 52, 48, 57, 57, 50]), (cash, [49]), (cash, [49])]"

definition big_last_rows :: "(ustr \<times> ustr) list" where
  "big_last_rows =
     [(cash, [49]), (cash, [49]), (cash, [57, 48, 48, 55, 49, 57, 57, 50, 53, 52, 55, 52, 48, 57, 57, 50])]"

section \<open>Facts about the library model\<close>

subsection \<open>Strings and the pattern table\<close>

lemma is_prefix_iff: "is_prefix p s \<longleftrightarrow> (\<exists>post. s = p @ post)"
  by (induction p s rule: is_prefix.induct) auto

lemma contains_iff: "contains p s \<longleftrightarrow> (\<exists>pre post. s = pre @ p @ post)"
proof (induction s)
  case Nil
  then show ?case by simp
next
  case (Cons c cs)
  show ?case
  proof
    assume "contains p (c # cs)"
    then consider "is_prefix p (c # cs)" | "contains p cs" by auto
    then show "\<exists>pre post. c # cs = pre @ p @ post"
    proof cases
      case 1
      then obtain post where "c # cs = p @ post" by (auto simp: is_prefix_iff)
      then have "c # cs = [] @ p @ post" by simp
      then show ?thesis by blast
    next
      case 2
      with Cons.IH obtain pre post where "cs = pre @ p @ post" by blast
      then have "c # cs = (c # pre) @ p @ post" by simp
      then show ?thesis by blast
    qed
  next
    assume "\<exists>pre post. c # cs = pre @ p @ post"
    then obtain pre post where eq: "c # cs = pre @ p @ post" by blast
    show "contains p (c # cs)"
    proof (cases pre)
      case Nil
      with eq have "is_prefix p (c # cs)" by (auto simp: is_prefix_iff)
      then show ?thesis by simp
    next
      case (Cons a pre')
      with eq have "cs = pre' @ p @ post" by simp
      with Cons.IH have "contains p cs" by blast
      then show ?thesis by simp
    qed
  qed
qed

lemma list_hit_iff:
  "list_hit ps s = list_ex (\<lambda>p. contains p s) (pattern_strings (PatList ps))"
  by (induction ps s rule: list_hit.induct) auto

lemma patterns_hit_iff:
  "patterns_hit pats s = list_ex (\<lambda>p. contains p s) (pattern_strings pats)"
  by (cases pats) (simp_all add: list_hit_iff)

lemma search_mapping_first: "search_mapping mapping s = first_matching_account mapping s"
  by (induction mapping) (auto simp: first_matching_account_def patterns_hit_iff)

subsection \<open>The classifier (C7)\<close>

text \<open>
  C7, as the code has it. \<open>map_item_to_bs_account\<close> returns nothing when the label is
  missing, empty or only white space. Otherwise, whenever the formatting of the amount
  returns, it returns the first account in table order one of whose string patterns is a
  substring of the label with its surrounding white space stripped (\<open>strip nm\<close>, not the
  label as given), with that account's level, the formatted amount and the annotations;
  and nothing when no pattern matches. Nothing is said here about an amount whose
  formatting raises.
\<close>

theorem classifier_first_match:
  "map_item_to_bs_account mapping None amount = Inr None \<and>
   (strip nm = [] \<longrightarrow> map_item_to_bs_account mapping (Some nm) amount = Inr None) \<and>
   (strip nm \<noteq> [] \<longrightarrow> format_amount (clean_amount_value amount) = Inr fa \<longrightarrow>
      map_item_to_bs_account mapping (Some nm) amount =
        Inr (map_option
               (\<lambda>acct. \<lparr>bs_level = get_account_level acct, bs_name = acct, bs_value = fa,
                         bs_note = extract_note_numbers amount\<rparr>)
               (first_matching_account mapping (strip nm))))"
proof -
  have nil: "strip [] = []" by (simp add: strip_def)
  show ?thesis
    by (auto simp: map_item_to_bs_account_def Let_def nil search_mapping_first
             split: option.splits)
qed

text \<open>
  C7 as stated fails: the pattern \<open>" a"\<close> is a substring of the label \<open>" a"\<close>, yet the
  classifier returns nothing, because it searches the stripped label \<open>"a"\<close>.
\<close>

theorem classifier_unstripped_pattern_counterexample:
  "contains [32, 97] [32, 97] \<and>
   map_item_to_bs_account [([88], PatSingle [32, 97])] (Some [32, 97]) (Some []) = Inr None"
  by (simp add: map_item_to_bs_account_def strip_def isspace_def clean_amount_value_def
        format_amount_def)

subsection \<open>The amount normalizer (C4)\<close>

text \<open>
  C4 at a failing input: the comma is not a digit, yet for the string \<open>","\<close> the
  normalizer returns \<open>","\<close>, and for the triangle followed by two commas it returns a minus
  and the two commas, where the claim says the empty string.
\<close>

theorem clean_amount_value_commas_only:
  "\<not> is_decimal 44 \<and> clean_amount_value (Some [44]) = [44] \<and>
   clean_amount_value (Some [9651, 44, 44]) = [45, 44, 44]"
  by (simp add: clean_amount_value_def is_signchar_def is_numchar_def is_decimal_def
        decimal_value_def startswith_char_def)

subsection \<open>The row standardizer\<close>

lemma length_standardize_row: "length (standardize_row row) = 25"
  by (simp add: standardize_row_def)

lemma convert_rows_25: "list_all (\<lambda>row. length row = 25) (convert_to_csv_format bs_table)"
  by (simp add: convert_to_csv_format_def list_all_iff length_standardize_row)

lemma transform_items_rows_25:
  "transform_items cfg items = Inr t \<Longrightarrow> list_all (\<lambda>row. length row = 25) t"
  by (auto simp: transform_items_def convert_rows_25 split: sum.splits)

lemma transform_rows_25:
  "transform_to_balance_sheet cfg df = Inr t \<Longrightarrow> list_all (\<lambda>row. length row = 25) t"
  by (auto simp: transform_to_balance_sheet_def convert_rows_25 convert_to_csv_format_def
           split: sum.splits option.splits if_splits dest: transform_items_rows_25)

lemma transform_items_nil: "\<exists>t. transform_items cfg [] = Inr t"
  by (simp add: transform_items_def build_balance_sheet_structure_with_grouping_def)

lemma filter_zero_rows:
  "rows df = [] \<Longrightarrow>
   (context_id_col \<in> set (column_names df) \<longrightarrow> dtype_of df context_id_col = Object) \<Longrightarrow>
   \<exists>d. filter_current_year df = Inr d \<and> rows d = []"
  by (auto simp: filter_current_year_def)

lemma transform_zero_rows:
  assumes "rows df = []"
    "context_id_col \<in> set (column_names df) \<longrightarrow> dtype_of df context_id_col = Object"
  shows "\<exists>t. transform_to_balance_sheet cfg df = Inr t"
proof -
  from filter_zero_rows [OF assms] obtain d where d: "filter_current_year df = Inr d" "rows d = []"
    by blast
  show ?thesis
    using transform_items_nil [of cfg]
    by (auto simp: transform_to_balance_sheet_def d split: option.splits)
qed

subsection \<open>Rounding to binary64\<close>

lemma bitlen_nat_pos: "0 < n \<Longrightarrow> 0 < bitlen_nat n"
  by (subst bitlen_nat.simps) simp

lemma bitlen_nat_bounds: "0 < n \<Longrightarrow> 2 ^ (bitlen_nat n - 1) \<le> n \<and> n < 2 ^ bitlen_nat n"
proof (induction n rule: bitlen_nat.induct)
  case (1 n)
  show ?case
  proof (cases "n div 2 = 0")
    case True
    with "1.prems" have "n = 1" by presburger
    then show ?thesis by (simp add: bitlen_nat.simps)
  next
    case False
    then have pos: "0 < n div 2" by simp
    from "1.IH" [OF _ pos] "1.prems"
    have ih: "2 ^ (bitlen_nat (n div 2) - 1) \<le> n div 2" "n div 2 < 2 ^ bitlen_nat (n div 2)"
      by simp_all
    have bl: "bitlen_nat n = Suc (bitlen_nat (n div 2))"
      using "1.prems" by (subst bitlen_nat.simps) simp
    obtain k where k: "bitlen_nat (n div 2) = Suc k"
      using bitlen_nat_pos [OF pos] by (cases "bitlen_nat (n div 2)") auto
    from ih k have "2 ^ k \<le> n div 2" "n div 2 < 2 ^ Suc k" by simp_all
    then have "2 * 2 ^ k \<le> n" "n < 2 * 2 ^ Suc k" by presburger+
    then show ?thesis by (simp add: bl k)
  qed
qed

lemma bitlen_nat_unique:
  assumes "0 < b" "2 ^ (b - 1) \<le> n" "n < 2 ^ b"
  shows "bitlen_nat n = b"
proof -
  have pos: "0 < n" using assms(2) by (cases "n = 0") auto
  define c where "c = bitlen_nat n"
  from bitlen_nat_bounds [OF pos] have lo: "2 ^ (c - 1) \<le> n" and hi: "n < 2 ^ c"
    by (simp_all add: c_def)
  have cpos: "0 < c" using bitlen_nat_pos [OF pos] by (simp add: c_def)
  have "(2::nat) ^ (c - 1) < 2 ^ b" using lo assms(3) by (rule le_less_trans)
  then have 1: "c - 1 < b" by (rule power_less_imp_less_exp [rotated]) simp
  have "(2::nat) ^ (b - 1) < 2 ^ c" using assms(2) hi by (rule le_less_trans)
  then have 2: "b - 1 < c" by (rule power_less_imp_less_exp [rotated]) simp
  from 1 2 cpos assms(1) have "c = b" by arith
  then show ?thesis by (simp add: c_def)
qed

lemma floor_log2_ge1:
  assumes "0 < b" "2 ^ (b - 1) \<le> a" "a < 2 ^ b"
  shows "floor_log2 a = int b - 1"
proof -
  have "(1::rat) \<le> 2 ^ (b - 1)" by simp
  then have one: "1 \<le> a" using assms(2) by linarith
  have "(of_int (2 ^ (b - 1)) :: rat) \<le> a" using assms(2) by simp
  then have "(2::int) ^ (b - 1) \<le> \<lfloor>a\<rfloor>" by (simp only: le_floor_iff)
  then have lo: "2 ^ (b - 1) \<le> nat \<lfloor>a\<rfloor>" by (simp add: le_nat_iff)
  have "a < of_int (2 ^ b)" using assms(3) by simp
  then have "\<lfloor>a\<rfloor> < 2 ^ b" by (simp only: floor_less_iff)
  then have hi: "nat \<lfloor>a\<rfloor> < 2 ^ b" using one by (simp add: nat_less_iff)
  have "bitlen_nat (nat \<lfloor>a\<rfloor>) = b" using assms(1) lo hi by (rule bitlen_nat_unique)
  then show ?thesis using one by (simp add: floor_log2_def)
qed

lemma round_double_pos:
  assumes "0 < a"
  shows "round_double a =
    (if (2::rat) ^ 1024 \<le> of_int (round_half_even (a / power_int 2 (max (floor_log2 a - 52) (- 1074)))) *
          power_int 2 (max (floor_log2 a - 52) (- 1074))
     then PInf
     else Fin (of_int (round_half_even (a / power_int 2 (max (floor_log2 a - 52) (- 1074)))) *
          power_int 2 (max (floor_log2 a - 52) (- 1074))))"
proof -
  have a: "\<bar>a\<bar> = a" "a \<noteq> 0" "\<not> a < 0" using assms by simp_all
  show ?thesis unfolding round_double_def Let_def a using a by (simp only: if_False)
qed

lemma round_double_neg: "round_double (- x) = float_neg (round_double x)"
  by (cases "x = 0") (auto simp: round_double_def Let_def)

lemma round_half_even_of_int: "round_half_even (of_int k) = k"
  by (simp add: round_half_even_def)

lemma round_half_even_down:
  assumes "of_int f \<le> x" "x < of_int f + 1 / 2"
  shows "round_half_even x = f"
proof -
  have "\<lfloor>x\<rfloor> = f" using assms by (intro floor_unique) auto
  then show ?thesis using assms by (simp add: round_half_even_def Let_def)
qed

lemma round_half_even_up:
  assumes "of_int f - 1 / 2 < x" "x < of_int f"
  shows "round_half_even x = f"
proof -
  have "\<lfloor>x\<rfloor> = f - 1" using assms by (intro floor_unique) auto
  then show ?thesis using assms by (simp add: round_half_even_def Let_def)
qed

lemma round_half_even_tie:
  assumes "x = of_int f + 1 / 2"
  shows "round_half_even x = (if even f then f else f + 1)"
proof -
  have "\<lfloor>x\<rfloor> = f" using assms by (intro floor_unique) auto
  then show ?thesis using assms by (simp add: round_half_even_def Let_def)
qed

lemma round_half_even_ge_floor: "\<lfloor>x\<rfloor> \<le> round_half_even x"
  by (simp add: round_half_even_def Let_def)

text \<open>Evaluation of \<open>round_double\<close> from the binade of the argument.\<close>

lemma round_double_coarse:
  assumes "53 \<le> b" "2 ^ (b - 1) \<le> a" "a < 2 ^ b"
    and "round_half_even (a / 2 ^ (b - 53)) = m"
    and "of_int m * 2 ^ (b - 53) < (2::rat) ^ 1024"
  shows "round_double a = Fin (of_int m * 2 ^ (b - 53))"
proof -
  have bpos: "0 < b" using assms(1) by simp
  have "(0::rat) < 2 ^ (b - 1)" by simp
  then have pos: "0 < a" using assms(2) by linarith
  have fl: "floor_log2 a = int b - 1" using bpos assms(2,3) by (rule floor_log2_ge1)
  have q: "max (floor_log2 a - 52) (- 1074) = int (b - 53)" using assms(1) by (simp add: fl)
  have pw: "power_int (2::rat) (int (b - 53)) = 2 ^ (b - 53)" by simp
  show ?thesis
    unfolding round_double_pos [OF pos] q pw assms(4) using assms(5) by simp
qed

lemma round_double_fine:
  assumes "0 < b" "b \<le> 53" "2 ^ (b - 1) \<le> a" "a < 2 ^ b"
    and "round_half_even (a * 2 ^ (53 - b)) = m"
    and "of_int m / 2 ^ (53 - b) < (2::rat) ^ 1024"
  shows "round_double a = Fin (of_int m / 2 ^ (53 - b))"
proof -
  have "(0::rat) < 2 ^ (b - 1)" by simp
  then have pos: "0 < a" using assms(3) by linarith
  have fl: "floor_log2 a = int b - 1" using assms(1,3,4) by (rule floor_log2_ge1)
  have q: "max (floor_log2 a - 52) (- 1074) = - int (53 - b)" using assms(1,2) by (simp add: fl)
  have pw: "power_int (2::rat) (- int (53 - b)) = 1 / 2 ^ (53 - b)"
    by (simp add: power_int_minus field_simps)
  have d: "a / (1 / 2 ^ (53 - b)) = a * 2 ^ (53 - b)" by simp
  have e: "of_int m * (1 / 2 ^ (53 - b)) = (of_int m / 2 ^ (53 - b) :: rat)" by simp
  show ?thesis
    unfolding round_double_pos [OF pos] q pw d assms(5) e using assms(6) by simp
qed

lemma round_double_of_nat_exact:
  assumes "n < 2 ^ 53"
  shows "round_double (of_nat n) = Fin (of_nat n)"
proof (cases "n = 0")
  case True
  then show ?thesis by (simp add: round_double_def)
next
  case False
  then have pos: "0 < n" by simp
  define b where "b = bitlen_nat n"
  from bitlen_nat_bounds [OF pos] have lo: "2 ^ (b - 1) \<le> n" and hi: "n < 2 ^ b"
    by (simp_all add: b_def)
  have bpos: "0 < b" using bitlen_nat_pos [OF pos] by (simp add: b_def)
  have "(2::nat) ^ (b - 1) < 2 ^ 53" using lo assms by (rule le_less_trans)
  then have "b - 1 < 53" by (rule power_less_imp_less_exp [rotated]) simp
  then have b53: "b \<le> 53" by simp
  have lo': "(2::rat) ^ (b - 1) \<le> of_nat n"
    using lo by (metis of_nat_le_iff of_nat_numeral of_nat_power)
  have hi': "(of_nat n :: rat) < 2 ^ b"
    using hi by (metis of_nat_less_iff of_nat_numeral of_nat_power)
  have m: "(of_nat n :: rat) * 2 ^ (53 - b) = of_int (int (n * 2 ^ (53 - b)))" by simp
  have r: "round_half_even (of_nat n * 2 ^ (53 - b)) = int (n * 2 ^ (53 - b))"
    unfolding m by (rule round_half_even_of_int)
  have v: "(of_int (int (n * 2 ^ (53 - b))) / 2 ^ (53 - b) :: rat) = of_nat n" by simp
  have "(of_nat n :: rat) < of_nat (2 ^ 53)" using assms by (simp only: of_nat_less_iff)
  also have "\<dots> < 2 ^ 1024" by simp
  finally have small: "(of_int (int (n * 2 ^ (53 - b))) / 2 ^ (53 - b) :: rat) < 2 ^ 1024"
    unfolding v .
  from round_double_fine [OF bpos b53 lo' hi' r small] show ?thesis unfolding v .
qed

lemma round_double_of_int_exact:
  assumes "\<bar>k\<bar> < 2 ^ 53"
  shows "round_double (of_int k) = Fin (of_int k)"
proof (cases "0 \<le> k")
  case True
  then have "nat k < 2 ^ 53" using assms by (simp add: nat_less_iff)
  from round_double_of_nat_exact [OF this] True show ?thesis by simp
next
  case False
  then have "nat (- k) < 2 ^ 53" using assms by (simp add: nat_less_iff)
  from round_double_of_nat_exact [OF this] False
  have "round_double (of_int (- k)) = Fin (of_int (- k))" by simp
  then have "round_double (- of_int k) = Fin (- of_int k)" by simp
  then show ?thesis unfolding round_double_neg by (cases "round_double (of_int k)") auto
qed

lemma round_double_overflow:
  assumes "2 ^ 1024 \<le> a"
  shows "round_double a = PInf"
proof -
  have "(1::rat) \<le> 2 ^ 1024" by (rule one_le_power) simp
  then have one: "1 \<le> a" using assms by (rule order_trans)
  then have pos: "0 < a" by simp
  define n where "n = nat \<lfloor>a\<rfloor>"
  have "(of_int (2 ^ 1024) :: rat) \<le> a" using assms by simp
  then have "(2::int) ^ 1024 \<le> \<lfloor>a\<rfloor>" by (simp only: le_floor_iff)
  then have n_lo: "2 ^ 1024 \<le> n" by (simp add: n_def le_nat_iff)
  then have npos: "0 < n" by (cases "n = 0") auto
  define b where "b = bitlen_nat n"
  from bitlen_nat_bounds [OF npos] have lo: "2 ^ (b - 1) \<le> n" and hi: "n < 2 ^ b"
    by (simp_all add: b_def)
  have "(2::nat) ^ 1024 < 2 ^ b" using n_lo hi by (rule le_less_trans)
  then have b_big: "1024 < b" by (rule power_less_imp_less_exp [rotated]) simp
  have fl: "floor_log2 a = int b - 1" using one by (simp add: floor_log2_def b_def n_def)
  have q: "max (floor_log2 a - 52) (- 1074) = int (b - 53)" using b_big by (simp add: fl)
  have pw: "power_int (2::rat) (int (b - 53)) = 2 ^ (b - 53)" by simp
  have n_le: "(of_nat n :: rat) \<le> a" using one by (simp add: n_def)
  have lo_rat: "(2::rat) ^ (b - 1) \<le> of_nat n"
    using lo by (metis of_nat_le_iff of_nat_numeral of_nat_power)
  from lo_rat n_le have a_lo: "(2::rat) ^ (b - 1) \<le> a" by (rule order_trans)
  have eqn: "b - 1 = 52 + (b - 53)" using b_big by simp
  have split: "(2::rat) ^ (b - 1) = 2 ^ 52 * 2 ^ (b - 53)"
    by (subst eqn) (rule power_add)
  have "(2::rat) ^ 52 \<le> a / 2 ^ (b - 53)"
    using a_lo unfolding split by (simp add: pos_le_divide_eq)
  then have "(of_int (2 ^ 52) :: rat) \<le> a / 2 ^ (b - 53)" by simp
  then have "(2::int) ^ 52 \<le> \<lfloor>a / 2 ^ (b - 53)\<rfloor>" by (simp only: le_floor_iff)
  also have "\<dots> \<le> round_half_even (a / 2 ^ (b - 53))" by (rule round_half_even_ge_floor)
  finally have "(of_int (2 ^ 52) :: rat) \<le> of_int (round_half_even (a / 2 ^ (b - 53)))"
    by (simp only: of_int_le_iff)
  then have "(2::rat) ^ 52 * 2 ^ (b - 53) \<le> of_int (round_half_even (a / 2 ^ (b - 53))) * 2 ^ (b - 53)"
    by (simp add: mult_right_mono)
  then have "(2::rat) ^ (b - 1) \<le> of_int (round_half_even (a / 2 ^ (b - 53))) * 2 ^ (b - 53)"
    unfolding split .
  moreover have "(2::rat) ^ 1024 \<le> 2 ^ (b - 1)"
    using b_big by (intro power_increasing) auto
  ultimately have "(2::rat) ^ 1024 \<le> of_int (round_half_even (a / 2 ^ (b - 53))) * 2 ^ (b - 53)"
    by (rule order_trans [rotated])
  then show ?thesis unfolding round_double_pos [OF pos] q pw by simp
qed

lemma round_double_2p53_plus_1: "round_double 9007199254740993 = Fin 9007199254740992"
proof -
  have r: "round_half_even (9007199254740993 / 2 ^ (54 - 53)) = 4503599627370496"
    by (subst round_half_even_tie [where f = 4503599627370496]) simp_all
  from round_double_coarse [where b = 54 and a = 9007199254740993, OF _ _ _ r] show ?thesis by simp
qed

lemma round_double_1e23: "round_double 100000000000000000000000 = Fin 99999999999999991611392"
proof -
  have r: "round_half_even (100000000000000000000000 / 2 ^ (77 - 53)) = 5960464477539062"
    by (subst round_half_even_tie [where f = 5960464477539062]) simp_all
  from round_double_coarse [where b = 77 and a = 100000000000000000000000, OF _ _ _ r]
  show ?thesis by simp
qed

lemma round_double_2_9: "round_double (29 / 10) = Fin (6530219459687219 / 2251799813685248)"
proof -
  have r: "round_half_even (29 / 10 * 2 ^ (53 - 2)) = 6530219459687219"
    by (rule round_half_even_down) simp_all
  from round_double_fine [where b = 2 and a = "29 / 10", OF _ _ _ _ r] show ?thesis by simp
qed

subsection \<open>Digits and \<open>float\<close> of a digit string\<close>

lemma decimal_value_le9: "decimal_value c = Some d \<Longrightarrow> d \<le> 9"
  by (auto simp: decimal_value_def find_Some_iff split: if_splits)

lemma ascii_digit_decimal: "ascii_digit c \<Longrightarrow> decimal_value c = Some (c - 48)"
  by (auto simp: ascii_digit_def decimal_value_def)

lemma decimal_below_128: "c < 128 \<Longrightarrow> is_decimal c = ascii_digit c"
  by (auto simp: is_decimal_def decimal_value_def ascii_digit_def)

lemma wide_space_codes:
  "128 \<le> c \<Longrightarrow> isspace c \<Longrightarrow>
   c \<in> set [133, 160, 5760, 8192, 8193, 8194, 8195, 8196, 8197, 8198, 8199, 8200, 8201, 8202,
              8232, 8233, 8239, 8287, 12288]"
  by (auto simp: isspace_def)

lemma wide_spaces_not_decimal:
  "list_all (\<lambda>c. decimal_value c = None)
     [133, 160, 5760, 8192, 8193, 8194, 8195, 8196, 8197, 8198, 8199, 8200, 8201, 8202,
      8232, 8233, 8239, 8287, 12288]"
  by (simp add: decimal_value_def nd_zeros_def)

lemma space_not_decimal: "128 \<le> c \<Longrightarrow> isspace c \<Longrightarrow> decimal_value c = None"
  using wide_space_codes [of c] wide_spaces_not_decimal by (simp only: list_all_iff)

lemma to_ascii_char_decimal:
  assumes "decimal_value c = Some d"
  shows "to_ascii_char c = Some (48 + d)"
proof (cases "c < 128")
  case True
  with assms have "48 \<le> c" "c \<le> 57" "d = c - 48"
    by (auto simp: decimal_value_def split: if_splits)
  then show ?thesis by (simp add: to_ascii_char_def)
next
  case False
  then have "\<not> isspace c" using assms space_not_decimal [of c] by auto
  with False assms show ?thesis by (simp add: to_ascii_char_def)
qed

lemma not_decimal_specials:
  "\<not> is_decimal 44" "\<not> is_decimal 45" "\<not> is_decimal 43" "\<not> is_decimal 95"
  by (simp_all add: is_decimal_def decimal_value_def)

lemma not_decimal_triangle: "\<not> is_decimal 9651"
  by (simp add: is_decimal_def decimal_value_def nd_zeros_def)

lemma is_decimal_not_special:
  "is_decimal c \<Longrightarrow> c \<noteq> 44 \<and> c \<noteq> 45 \<and> c \<noteq> 43 \<and> c \<noteq> 95 \<and> c \<noteq> 9651"
  using not_decimal_specials not_decimal_triangle by blast

lemma to_ascii_digits:
  "\<forall>c\<in>set ds. is_decimal c \<Longrightarrow>
   to_ascii ds = Some (map (\<lambda>c. 48 + the (decimal_value c)) ds)"
proof (induction ds)
  case Nil
  then show ?case by simp
next
  case (Cons c ds)
  then obtain d where "decimal_value c = Some d" by (auto simp: is_decimal_def)
  with Cons show ?case by (simp add: to_ascii_char_decimal)
qed

lemma ascii_of_decimal: "is_decimal c \<Longrightarrow> ascii_digit (48 + the (decimal_value c))"
  using decimal_value_le9 [of c] by (auto simp: is_decimal_def ascii_digit_def)

lemma decimal_value_of_ascii:
  "is_decimal c \<Longrightarrow> decimal_value (48 + the (decimal_value c)) = Some (the (decimal_value c))"
  using ascii_digit_decimal [OF ascii_of_decimal [of c]] by simp

lemma foldl_digits_ascii:
  "\<forall>c\<in>set ds. is_decimal c \<Longrightarrow>
   foldl (\<lambda>acc c. 10 * acc + the (decimal_value c)) acc (map (\<lambda>c. 48 + the (decimal_value c)) ds) =
   foldl (\<lambda>acc c. 10 * acc + the (decimal_value c)) acc ds"
  by (induction ds arbitrary: acc) (simp_all add: decimal_value_of_ascii)

lemma digits_value_ascii:
  "\<forall>c\<in>set ds. is_decimal c \<Longrightarrow>
   digits_value (map (\<lambda>c. 48 + the (decimal_value c)) ds) = digits_value ds"
  by (simp add: digits_value_def foldl_digits_ascii)

lemma strip_ascii_id:
  assumes "\<forall>c\<in>set s. \<not> ascii_space c"
  shows "strip_ascii s = s"
proof -
  have "dropWhile ascii_space s = s" using assms by (cases s) auto
  moreover have "dropWhile ascii_space (rev s) = rev s"
    using assms by (cases "rev s") (auto simp: dropWhile_eq_self_iff)
  ultimately show ?thesis by (simp add: strip_ascii_def)
qed

lemma ascii_digit_not_space: "ascii_digit c \<Longrightarrow> \<not> ascii_space c"
  by (auto simp: ascii_digit_def ascii_space_def)

lemma drop_underscores_digits:
  "\<forall>c\<in>set s. ascii_digit c \<Longrightarrow> prev \<noteq> 95 \<Longrightarrow> drop_underscores prev s = Some s"
proof (induction s arbitrary: prev)
  case Nil
  then show ?case by simp
next
  case (Cons c s)
  then have "c \<noteq> 95" by (auto simp: ascii_digit_def)
  with Cons show ?case by simp
qed

lemma parse_signed_digits:
  assumes "s \<noteq> []" "\<forall>c\<in>set s. ascii_digit c"
  shows "parse_signed s = Some (round_double (of_nat (digits_value s)))"
proof -
  obtain c cs where s: "s = c # cs" using assms(1) by (cases s) auto
  have c: "c \<noteq> 45" "c \<noteq> 43" using assms(2) by (auto simp: s ascii_digit_def)
  have tw: "takeWhile ascii_digit s = s" "dropWhile ascii_digit s = []" using assms(2) by simp_all
  have pd: "parse_decimal s = Some (of_nat (digits_value s), [])"
    using assms(1) by (simp add: parse_decimal_def tw parse_exponent_def)
  have sw: "\<not> startswith_char 45 s" "\<not> startswith_char 43 s"
    using c by (simp_all add: s startswith_char_def)
  show ?thesis by (simp add: parse_signed_def Let_def sw pd)
qed

lemma py_float_digits:
  assumes "ds \<noteq> []" "\<forall>c\<in>set ds. is_decimal c"
  shows "py_float ds = Inr (round_double (of_nat (digits_value ds)))"
proof -
  define as where "as = map (\<lambda>c. 48 + the (decimal_value c)) ds"
  have a: "to_ascii ds = Some as" using assms(2) by (simp add: as_def to_ascii_digits)
  have dig: "\<forall>c\<in>set as. ascii_digit c" using assms(2) by (auto simp: as_def ascii_of_decimal)
  have ne: "as \<noteq> []" using assms(1) by (simp add: as_def)
  have st: "strip_ascii as = as" using dig by (intro strip_ascii_id) (auto dest: ascii_digit_not_space)
  have du: "drop_underscores 0 as = Some as" using dig by (intro drop_underscores_digits) auto
  have v: "digits_value as = digits_value ds" using assms(2) by (simp add: as_def digits_value_ascii)
  show ?thesis by (simp add: py_float_def a st du parse_signed_digits [OF ne dig] v)
qed

lemma py_float_empty: "py_float [] = Inl ValueError"
  by (simp add: py_float_def strip_ascii_def parse_signed_def startswith_char_def
        parse_decimal_def parse_inf_nan_def)

subsection \<open>The formatter on whole numbers\<close>

lemma of_nat_div_mod_million:
  "(of_nat m :: rat) = 1000000 * of_nat (m div 1000000) + of_nat (m mod 1000000)"
proof -
  have "1000000 * (m div 1000000) + m mod 1000000 = m" by (rule mult_div_mod_eq)
  then have "(of_nat m :: rat) = of_nat (1000000 * (m div 1000000) + m mod 1000000)"
    by (simp only:)
  then show ?thesis by (simp only: of_nat_add of_nat_mult of_nat_numeral)
qed

lemma float_mod_million_of_nat:
  "float_mod_million_is_zero (Fin (of_nat m)) = (m mod 1000000 = 0)"
proof -
  have fl: "\<lfloor>(of_nat m :: rat) / 1000000\<rfloor> = int (m div 1000000)"
    using floor_divide_of_nat_eq [of m 1000000, where ?'a = rat] by simp
  have "(of_nat m :: rat) - 1000000 * of_nat (m div 1000000) = of_nat (m mod 1000000)"
    using of_nat_div_mod_million [of m] by linarith
  then have "(of_nat m :: rat) - 1000000 * of_int \<lfloor>(of_nat m :: rat) / 1000000\<rfloor> =
      of_nat (m mod 1000000)"
    by (simp only: fl of_int_of_nat_eq)
  then have "float_mod_million_is_zero (Fin (of_nat m)) = ((of_nat (m mod 1000000) :: rat) = 0)"
    by (simp only: float_mod_million_is_zero.simps)
  then show ?thesis by (simp only: of_nat_eq_0_iff)
qed

lemma float_ge_million_of_nat: "float_ge_million (Fin (of_nat m)) = (1000000 \<le> m)"
proof -
  have "(1000000::rat) \<le> of_nat m \<longleftrightarrow> (of_nat 1000000 :: rat) \<le> of_nat m"
    by (simp only: of_nat_numeral)
  also have "\<dots> \<longleftrightarrow> 1000000 \<le> m" by (rule of_nat_le_iff)
  finally show ?thesis by (simp only: float_ge_million.simps)
qed

lemma float_div_million_of_nat:
  assumes "m mod 1000000 = 0" "m div 1000000 < 2 ^ 53"
  shows "float_div_million (Fin (of_nat m)) = Fin (of_nat (m div 1000000))"
proof -
  have "(of_nat m :: rat) = 1000000 * of_nat (m div 1000000)"
    using of_nat_div_mod_million [of m] by (simp only: assms(1) of_nat_0 add_0_right)
  then have "(of_nat m :: rat) / 1000000 = of_nat (m div 1000000)" by simp
  then show ?thesis
    using round_double_of_nat_exact [OF assms(2)] by (simp only: float_div_million.simps)
qed

lemma py_int_of_nat: "py_int (Fin (of_nat m)) = Inr (int m)"
  by simp

lemma format_amount_unfold:
  assumes "amount \<noteq> []"
    and "py_float (if startswith_char 45 (remove_commas amount)
                   then tl (remove_commas amount) else remove_commas amount) = Inr f"
  shows "format_amount amount =
     (case (if float_ge_million f \<and> float_mod_million_is_zero f
            then (case py_int (float_div_million f) of
                    Inl e \<Rightarrow> Inl e
                  | Inr k \<Rightarrow> Inr (if startswith_char 45 (remove_commas amount)
                                  then format_int (k * - 1) else format_int k))
            else (case py_int f of
                    Inl e \<Rightarrow> Inl e
                  | Inr k \<Rightarrow> Inr (if startswith_char 45 (remove_commas amount)
                                  then 45 # format_int k else format_int k)))
      of Inl ValueError \<Rightarrow> Inr amount
       | Inl e \<Rightarrow> Inl e
       | Inr r \<Rightarrow> Inr r)"
  using assms by (simp add: format_amount_def Let_def)

lemma format_int_of_nat: "format_int (int m) = group_nat m"
  by (simp add: format_int_def)

lemma format_int_neg_of_nat: "0 < m \<Longrightarrow> format_int (- int m) = 45 # group_nat m"
  by (simp add: format_int_def)

lemma format_amount_plain:
  assumes "amount \<noteq> []"
    and "py_float (if startswith_char 45 (remove_commas amount)
                   then tl (remove_commas amount) else remove_commas amount) = Inr (Fin (of_nat m))"
    and "\<not> (1000000 \<le> m \<and> m mod 1000000 = 0)"
  shows "format_amount amount =
     Inr ((if startswith_char 45 (remove_commas amount) then [45] else []) @ group_nat m)"
proof -
  have c: "(float_ge_million (Fin (of_nat m)) \<and> float_mod_million_is_zero (Fin (of_nat m))) = False"
    using assms(3) by (simp only: float_ge_million_of_nat float_mod_million_of_nat)
  show ?thesis
    unfolding format_amount_unfold [OF assms(1,2)] c if_False py_int_of_nat
    by (cases "startswith_char 45 (remove_commas amount)") (simp_all add: format_int_of_nat)
qed

lemma format_amount_rescaled:
  assumes "amount \<noteq> []"
    and "py_float (if startswith_char 45 (remove_commas amount)
                   then tl (remove_commas amount) else remove_commas amount) = Inr (Fin (of_nat m))"
    and "1000000 \<le> m" "m mod 1000000 = 0" "m div 1000000 < 2 ^ 53"
  shows "format_amount amount =
     Inr ((if startswith_char 45 (remove_commas amount) then [45] else []) @
          group_nat (m div 1000000))"
proof -
  have pos: "0 < m div 1000000" using assms(3) by (simp add: div_greater_zero_iff)
  have c: "(float_ge_million (Fin (of_nat m)) \<and> float_mod_million_is_zero (Fin (of_nat m))) = True"
    using assms(3,4) by (simp only: float_ge_million_of_nat float_mod_million_of_nat simp_thms)
  have d: "float_div_million (Fin (of_nat m)) = Fin (of_nat (m div 1000000))"
    using assms(4,5) by (rule float_div_million_of_nat)
  show ?thesis
    unfolding format_amount_unfold [OF assms(1,2)] c if_True d py_int_of_nat
    by (cases "startswith_char 45 (remove_commas amount)")
       (simp_all add: format_int_of_nat format_int_neg_of_nat [OF pos])
qed

subsection \<open>Evaluation on concrete numbers\<close>

lemma py_float_small:
  assumes "ds \<noteq> []" "\<forall>c\<in>set ds. is_decimal c" "digits_value ds = m" "m < 2 ^ 53"
  shows "py_float ds = Inr (Fin (of_nat m))"
  using py_float_digits [OF assms(1,2)] round_double_of_nat_exact [OF assms(4)]
  by (simp only: assms(3))

lemma round_double_numeral:
  "numeral k < (2::nat) ^ 53 \<Longrightarrow> round_double (numeral k) = Fin (numeral k)"
  using round_double_of_nat_exact [of "numeral k"] by (simp only: of_nat_numeral)

lemma round_double_neg_numeral:
  "numeral k < (2::nat) ^ 53 \<Longrightarrow> round_double (- numeral k) = Fin (- numeral k)"
  using round_double_numeral [of k] by (simp only: round_double_neg float_neg.simps)

lemma group_nat_examples:
  "group_nat 2 = [50]"
  "group_nat 3 = [51]"
  "group_nat 5 = [53]"
  "group_nat 500000 = [53, 48, 48, 44, 48, 48, 48]"
  "group_nat 1234567 = [49, 44, 50, 51, 52, 44, 53, 54, 55]"
  "group_nat 1234569 = [49, 44, 50, 51, 52, 44, 53, 54, 57]"
  by (simp_all add: group_nat_def dec_digits.simps)

lemma group_nat_big:
  "group_nat 99999999999999991611392 =
     [57, 57, 44, 57, 57, 57, 44, 57, 57, 57, 44, 57, 57, 57, 44, 57, 57, 57, 44, 57, 57, 49, 44,
      54, 49, 49, 44, 51, 57, 50]"
  "group_nat 100000000000000000 =
     [49, 48, 48, 44, 48, 48, 48, 44, 48, 48, 48, 44, 48, 48, 48, 44, 48, 48, 48, 44, 48, 48, 48]"
  by (simp_all add: group_nat_def dec_digits.simps)

lemma format_amount_unparsed:
  assumes "amount \<noteq> []"
    and "py_float (if startswith_char 45 (remove_commas amount)
                   then tl (remove_commas amount) else remove_commas amount) = Inl e"
  shows "format_amount amount = Inr amount"
  using assms by (simp add: format_amount_def Let_def)

lemma format_amount_fraction:
  assumes "amount \<noteq> []"
    and "py_float (if startswith_char 45 (remove_commas amount)
                   then tl (remove_commas amount) else remove_commas amount) = Inr (Fin d)"
    and "of_int \<lfloor>d\<rfloor> \<noteq> d"
  shows "format_amount amount =
     Inr ((if startswith_char 45 (remove_commas amount) then [45] else []) @
          format_int (if 0 \<le> d then \<lfloor>d\<rfloor> else \<lceil>d\<rceil>))"
proof -
  have "\<not> float_mod_million_is_zero (Fin d)"
  proof
    assume "float_mod_million_is_zero (Fin d)"
    then have "d = of_int (1000000 * \<lfloor>d / 1000000\<rfloor>)" by simp
    then have "of_int \<lfloor>d\<rfloor> = d" by (metis floor_of_int)
    with assms(3) show False by simp
  qed
  then have c: "(float_ge_million (Fin d) \<and> float_mod_million_is_zero (Fin d)) = False"
    by (simp only: simp_thms)
  show ?thesis
    unfolding format_amount_unfold [OF assms(1,2)] c if_False
    by (cases "startswith_char 45 (remove_commas amount)") simp_all
qed

subsection \<open>The formatter on cleaned tokens (C8)\<close>

lemma token_digits:
  assumes "list_all is_numchar body" "list_ex is_decimal body"
  shows "remove_commas body \<noteq> []" "\<forall>c\<in>set (remove_commas body). is_decimal c"
proof -
  from assms(2) obtain c where c: "c \<in> set body" "is_decimal c" by (auto simp: list_ex_iff)
  then have "c \<noteq> 44" using is_decimal_not_special [of c] by simp
  with c have "c \<in> set (remove_commas body)" by (simp add: remove_commas_def)
  then show "remove_commas body \<noteq> []" by auto
  show "\<forall>c\<in>set (remove_commas body). is_decimal c"
    using assms(1) by (auto simp: remove_commas_def list_all_iff is_numchar_def)
qed

lemma token_unsigned:
  assumes "sg = [] \<or> sg = [45]" "list_all is_numchar body" "list_ex is_decimal body"
  shows "remove_commas (sg @ body) = sg @ remove_commas body"
    and "startswith_char 45 (remove_commas (sg @ body)) = (sg = [45])"
    and "(if startswith_char 45 (remove_commas (sg @ body))
          then tl (remove_commas (sg @ body)) else remove_commas (sg @ body)) = remove_commas body"
proof -
  show rc: "remove_commas (sg @ body) = sg @ remove_commas body"
    using assms(1) by (auto simp: remove_commas_def)
  obtain c cs where ds: "remove_commas body = c # cs"
    using token_digits(1) [OF assms(2,3)] by (cases "remove_commas body") auto
  have "is_decimal c" using token_digits(2) [OF assms(2,3)] by (simp add: ds)
  then have c45: "c \<noteq> 45" using is_decimal_not_special [of c] by simp
  have sw': "startswith_char 45 (sg @ remove_commas body) = (sg = [45])"
    using assms(1) c45 by (auto simp: ds startswith_char_def)
  show "startswith_char 45 (remove_commas (sg @ body)) = (sg = [45])"
    by (simp only: rc sw')
  show "(if startswith_char 45 (remove_commas (sg @ body))
          then tl (remove_commas (sg @ body)) else remove_commas (sg @ body)) = remove_commas body"
    using assms(1) sw' by (auto simp: remove_commas_def)
qed

text \<open>
  C8, as the code has it. A cleaned token is an optional minus followed by digits and
  commas with at least one digit. When its absolute value \<open>n\<close> is at least 1,000,000, a
  multiple of 1,000,000 and below \<open>2 ^ 53\<close> (so that the float conversion is exact),
  \<open>format_amount\<close> returns \<open>n div 1000000\<close> with grouping separators and the minus kept.
  The empty token gives the empty string, and a token that \<open>float\<close> rejects is returned
  unchanged.
\<close>

theorem format_amount_exact_millions:
  "((sg = [] \<or> sg = [45]) \<and> list_all is_numchar body \<and> list_ex is_decimal body \<and>
       digits_value (remove_commas body) = n \<and> 1000000 \<le> n \<and> n mod 1000000 = 0 \<and> n < 2 ^ 53
     \<longrightarrow> format_amount (sg @ body) = Inr (sg @ group_nat (n div 1000000))) \<and>
   format_amount [] = Inr [] \<and>
   (amount \<noteq> [] \<and>
      py_float (if startswith_char 45 (remove_commas amount)
                then tl (remove_commas amount) else remove_commas amount) = Inl e
     \<longrightarrow> format_amount amount = Inr amount)"
proof (intro conjI impI)
  assume h: "(sg = [] \<or> sg = [45]) \<and> list_all is_numchar body \<and> list_ex is_decimal body \<and>
       digits_value (remove_commas body) = n \<and> 1000000 \<le> n \<and> n mod 1000000 = 0 \<and> n < 2 ^ 53"
  then have s: "sg = [] \<or> sg = [45]" and b: "list_all is_numchar body" "list_ex is_decimal body"
    and n: "digits_value (remove_commas body) = n" "1000000 \<le> n" "n mod 1000000 = 0" "n < 2 ^ 53"
    by simp_all
  have ne: "sg @ body \<noteq> []" using b(2) by (auto simp: list_ex_iff)
  have pf: "py_float (remove_commas body) = Inr (Fin (of_nat n))"
    using token_digits [OF b] n(1,4) by (rule py_float_small)
  have small: "n div 1000000 < 2 ^ 53" using n(4) by (rule le_less_trans [OF div_le_dividend])
  have "format_amount (sg @ body) =
      Inr ((if startswith_char 45 (remove_commas (sg @ body)) then [45] else []) @
           group_nat (n div 1000000))"
    using ne _ n(2,3) small
  proof (rule format_amount_rescaled)
    show "py_float (if startswith_char 45 (remove_commas (sg @ body))
                    then tl (remove_commas (sg @ body)) else remove_commas (sg @ body)) =
          Inr (Fin (of_nat n))"
      by (simp only: token_unsigned(3) [OF s b] pf)
  qed
  then show "format_amount (sg @ body) = Inr (sg @ group_nat (n div 1000000))"
    using s by (auto simp: token_unsigned(2) [OF s b])
next
  show "format_amount [] = Inr []" by (simp add: format_amount_def)
next
  assume "amount \<noteq> [] \<and>
      py_float (if startswith_char 45 (remove_commas amount)
                then tl (remove_commas amount) else remove_commas amount) = Inl e"
  then show "format_amount amount = Inr amount" by (auto intro: format_amount_unparsed)
qed

text \<open>
  The token \<open>-2,000,000\<close> is rendered as \<open>-2\<close>; the empty token stays empty; \<open>abc\<close>, which
  \<open>float\<close> rejects, is returned unchanged.
\<close>

lemma py_float_abc: "py_float [97, 98, 99] = Inl ValueError"
  by (simp add: py_float_def to_ascii_char_def strip_ascii_def ascii_space_def ascii_digit_def
        parse_signed_def Let_def startswith_char_def parse_decimal_def parse_inf_nan_def
        lower_ascii_def)

theorem format_amount_exact_millions_witness:
  "format_amount [45, 50, 44, 48, 48, 48, 44, 48, 48, 48] = Inr [45, 50] \<and>
   format_amount [] = Inr [] \<and>
   format_amount [97, 98, 99] = Inr [97, 98, 99]"
proof -
  have num: "list_all is_numchar [50, 44, 48, 48, 48, 44, 48, 48, 48]"
    "list_ex is_decimal [50, 44, 48, 48, 48, 44, 48, 48, 48]"
    by (simp_all add: is_numchar_def is_decimal_def decimal_value_def)
  have dv: "digits_value (remove_commas [50, 44, 48, 48, 48, 44, 48, 48, 48]) = 2000000"
    by (simp add: remove_commas_def digits_value_def decimal_value_def)
  have abc: "py_float (if startswith_char 45 (remove_commas [97, 98, 99])
                then tl (remove_commas [97, 98, 99]) else remove_commas [97, 98, 99]) = Inl ValueError"
    by (simp add: remove_commas_def startswith_char_def py_float_abc)
  from format_amount_exact_millions
         [of "[45]" "[50, 44, 48, 48, 48, 44, 48, 48, 48]" 2000000 "[97, 98, 99]" ValueError]
       num dv abc
  show ?thesis by (simp add: group_nat_examples)
qed

text \<open>
  C8 as stated fails at the token of the number \<open>10 ^ 23\<close>, a multiple of 1,000,000: its
  float is 99999999999999991611392, which is not, so no rescale happens and the result is
  not \<open>100,000,000,000,000,000\<close>.
\<close>

theorem format_amount_1e23_counterexample:
  "format_amount [49, 48, 48, 48, 48, 48, 48, 48, 48, 48, 48, 48, 48, 48, 48, 48, 48, 48, 48, 48, 48, 48, 48, 48] =
     Inr [57, 57, 44, 57, 57, 57, 44, 57, 57, 57, 44, 57, 57, 57, 44, 57, 57, 57, 44, 57, 57, 49, 44,
          54, 49, 49, 44, 51, 57, 50] \<and>
   digits_value [49, 48, 48, 48, 48, 48, 48, 48, 48, 48, 48, 48, 48, 48, 48, 48, 48, 48, 48, 48, 48, 48, 48, 48] = 100000000000000000000000 \<and>
   format_amount [49, 48, 48, 48, 48, 48, 48, 48, 48, 48, 48, 48, 48, 48, 48, 48, 48, 48, 48, 48, 48, 48, 48, 48] \<noteq> Inr (group_nat (100000000000000000000000 div 1000000))"
proof -
  let ?tok = "[49, 48, 48, 48, 48, 48, 48, 48, 48, 48, 48, 48, 48, 48, 48, 48, 48, 48, 48, 48, 48, 48, 48, 48]"
  have dv: "digits_value ?tok = 100000000000000000000000"
    by (simp add: digits_value_def decimal_value_def)
  have dec: "?tok \<noteq> []" "\<forall>c\<in>set ?tok. is_decimal c"
    by (simp_all add: is_decimal_def decimal_value_def)
  have "py_float ?tok = Inr (round_double (of_nat 100000000000000000000000))"
    using py_float_digits [OF dec] by (simp only: dv)
  also have "\<dots> = Inr (Fin (of_nat 99999999999999991611392))"
    by (simp only: of_nat_numeral round_double_1e23)
  finally have pf: "py_float ?tok = Inr (Fin (of_nat 99999999999999991611392))" .
  have rc: "remove_commas ?tok = ?tok" by (simp add: remove_commas_def)
  have sw: "startswith_char 45 ?tok = False" by (simp add: startswith_char_def)
  have "format_amount ?tok =
      Inr ((if startswith_char 45 (remove_commas ?tok) then [45] else []) @
           group_nat 99999999999999991611392)"
  proof (rule format_amount_plain [where m = 99999999999999991611392])
    show "?tok \<noteq> []" by simp
    show "py_float (if startswith_char 45 (remove_commas ?tok) then tl (remove_commas ?tok)
                    else remove_commas ?tok) = Inr (Fin (of_nat 99999999999999991611392))"
      by (simp only: rc sw if_False pf)
    show "\<not> (1000000 \<le> (99999999999999991611392::nat) \<and>
              (99999999999999991611392::nat) mod 1000000 = 0)"
      by simp
  qed
  then have r: "format_amount ?tok = Inr (group_nat 99999999999999991611392)"
    by (simp only: rc sw if_False append_Nil)
  show ?thesis
    unfolding r dv by (simp add: group_nat_big)
qed

subsection \<open>Fractional input (C10)\<close>

lemma py_float_ascii:
  assumes "to_ascii s = Some s" "strip_ascii s = s" "drop_underscores 0 s = Some s"
    and "parse_signed s = Some f"
  shows "py_float s = Inr f"
  by (simp add: py_float_def assms)

lemma py_float_2_9: "py_float [50, 46, 57] = Inr (Fin (6530219459687219 / 2251799813685248))"
proof -
  have pd: "parse_decimal [50, 46, 57] = Some (29 / 10, [])"
    by (simp add: parse_decimal_def ascii_digit_def parse_exponent_def digits_value_def
          decimal_value_def Let_def power_int_minus)
  have ps: "parse_signed [50, 46, 57] = Some (Fin (6530219459687219 / 2251799813685248))"
    by (simp add: parse_signed_def Let_def startswith_char_def pd round_double_2_9)
  show ?thesis
    by (rule py_float_ascii [OF _ _ _ ps])
       (simp_all add: to_ascii_char_def strip_ascii_def ascii_space_def ascii_digit_def)
qed

lemma floor_double_2_9: "\<lfloor>6530219459687219 / 2251799813685248 :: rat\<rfloor> = 2"
  by (rule floor_unique) simp_all

lemma round_double_nearly_3:
  "round_double (299999999999999999999 / 100000000000000000000) = Fin 3"
proof -
  have r: "round_half_even (299999999999999999999 / 100000000000000000000 * 2 ^ (53 - 2)) =
      6755399441055744"
    by (rule round_half_even_up) simp_all
  from round_double_fine [where b = 2 and a = "299999999999999999999 / 100000000000000000000",
         OF _ _ _ _ r]
  show ?thesis by simp
qed

lemma py_float_nearly_3: "py_float [50, 46, 57, 57, 57, 57, 57, 57, 57, 57, 57, 57, 57, 57, 57, 57, 57, 57, 57, 57, 57, 57] = Inr (Fin (of_nat 3))"
proof -
  let ?s = "[50, 46, 57, 57, 57, 57, 57, 57, 57, 57, 57, 57, 57, 57, 57, 57, 57, 57, 57, 57, 57, 57]"
  have pd: "parse_decimal ?s = Some (299999999999999999999 / 100000000000000000000, [])"
    by (simp add: parse_decimal_def ascii_digit_def parse_exponent_def digits_value_def
          decimal_value_def Let_def power_int_minus)
  have ps: "parse_signed ?s = Some (Fin (of_nat 3))"
    by (simp add: parse_signed_def Let_def startswith_char_def pd round_double_nearly_3)
  show ?thesis
    by (rule py_float_ascii [OF _ _ _ ps])
       (simp_all add: to_ascii_char_def strip_ascii_def ascii_space_def ascii_digit_def)
qed

text \<open>
  C10, as the code has it. The input, without its commas and one leading minus, is first
  converted by \<open>float\<close> to the nearest binary64 number \<open>d\<close>. When \<open>d\<close> has a non-zero
  fractional part, \<open>format_amount\<close> returns \<open>d\<close> truncated toward zero, grouped, behind the
  minus of the text if it had one. The truncation acts on \<open>d\<close>, not on the decimal text.
\<close>

theorem format_amount_truncates_the_float:
  "amount \<noteq> [] \<and>
   py_float (if startswith_char 45 (remove_commas amount)
             then tl (remove_commas amount) else remove_commas amount) = Inr (Fin d) \<and>
   of_int \<lfloor>d\<rfloor> \<noteq> d
   \<longrightarrow> format_amount amount =
        Inr ((if startswith_char 45 (remove_commas amount) then [45] else []) @
             format_int (if 0 \<le> d then \<lfloor>d\<rfloor> else \<lceil>d\<rceil>))"
  using format_amount_fraction [of amount d] by blast

text \<open>\<open>2.9\<close> gives \<open>2\<close> and \<open>-2.9\<close> gives \<open>-2\<close>.\<close>

theorem format_amount_truncates_the_float_witness:
  "format_amount [50, 46, 57] = Inr [50] \<and> format_amount [45, 50, 46, 57] = Inr [45, 50]"
proof -
  let ?d = "6530219459687219 / 2251799813685248 :: rat"
  have frac: "of_int \<lfloor>?d\<rfloor> \<noteq> ?d" by (simp add: floor_double_2_9)
  have pos: "0 \<le> ?d" by simp
  have p1: "py_float (if startswith_char 45 (remove_commas [50, 46, 57])
             then tl (remove_commas [50, 46, 57]) else remove_commas [50, 46, 57]) = Inr (Fin ?d)"
    by (simp add: remove_commas_def startswith_char_def py_float_2_9)
  have p2: "py_float (if startswith_char 45 (remove_commas [45, 50, 46, 57])
             then tl (remove_commas [45, 50, 46, 57]) else remove_commas [45, 50, 46, 57]) =
           Inr (Fin ?d)"
    by (simp add: remove_commas_def startswith_char_def py_float_2_9)
  have n1: "startswith_char 45 (remove_commas [50, 46, 57]) = False"
    and n2: "startswith_char 45 (remove_commas [45, 50, 46, 57]) = True"
    by (simp_all add: remove_commas_def startswith_char_def)
  have fi: "format_int 2 = [50]" using format_int_of_nat [of 2] by (simp add: group_nat_examples)
  from format_amount_truncates_the_float [of "[50, 46, 57]" ?d] p1 frac
  have a: "format_amount [50, 46, 57] = Inr [50]"
    by (simp only: n1 pos floor_double_2_9) (simp add: fi)
  from format_amount_truncates_the_float [of "[45, 50, 46, 57]" ?d] p2 frac
  have b: "format_amount [45, 50, 46, 57] = Inr [45, 50]"
    by (simp only: n2 pos floor_double_2_9) (simp add: fi)
  from a b show ?thesis by simp
qed

text \<open>
  C10 as stated fails: \<open>2.99999999999999999999\<close> has a non-zero fractional part and is not
  a multiple of 1,000,000, yet the result is \<open>3\<close>, not the truncation \<open>2\<close>, since its float
  is exactly 3.
\<close>

theorem format_amount_nearly_3_counterexample:
  "format_amount [50, 46, 57, 57, 57, 57, 57, 57, 57, 57, 57, 57, 57, 57, 57, 57, 57, 57, 57, 57, 57, 57] = Inr [51]"
proof -
  let ?s = "[50, 46, 57, 57, 57, 57, 57, 57, 57, 57, 57, 57, 57, 57, 57, 57, 57, 57, 57, 57, 57, 57]"
  have rc: "remove_commas ?s = ?s" by (simp add: remove_commas_def)
  have sw: "startswith_char 45 ?s = False" by (simp add: startswith_char_def)
  have "format_amount ?s =
      Inr ((if startswith_char 45 (remove_commas ?s) then [45] else []) @ group_nat 3)"
  proof (rule format_amount_plain [where m = 3])
    show "?s \<noteq> []" by simp
    show "py_float (if startswith_char 45 (remove_commas ?s) then tl (remove_commas ?s)
                    else remove_commas ?s) = Inr (Fin (of_nat 3))"
      by (simp only: rc sw if_False py_float_nearly_3)
    show "\<not> (1000000 \<le> (3::nat) \<and> (3::nat) mod 1000000 = 0)" by simp
  qed
  then show ?thesis by (simp only: rc sw if_False append_Nil group_nat_examples)
qed

subsection \<open>Tokens through the pipeline\<close>

lemma is_decimal_not_space: "is_decimal c \<Longrightarrow> \<not> isspace c"
proof (cases "c < 128")
  case True
  assume "is_decimal c"
  with True have "48 \<le> c" "c \<le> 57" by (auto simp: decimal_below_128 ascii_digit_def)
  then show ?thesis by (auto simp: isspace_def)
next
  case False
  assume "is_decimal c"
  with False show ?thesis using space_not_decimal [of c] by (auto simp: is_decimal_def)
qed

lemma strip_nonempty:
  assumes "c \<in> set s" "\<not> isspace c"
  shows "strip s \<noteq> []"
proof -
  have d: "dropWhile isspace s \<noteq> []" using assms by (auto simp: dropWhile_eq_Nil_conv)
  then have "\<not> isspace (hd (dropWhile isspace s))" by (rule hd_dropWhile)
  moreover have "hd (dropWhile isspace s) \<in> set (rev (dropWhile isspace s))" using d by simp
  ultimately have "dropWhile isspace (rev (dropWhile isspace s)) \<noteq> []"
    by (auto simp: dropWhile_eq_Nil_conv)
  then show ?thesis by (simp add: strip_def)
qed

lemma format_amount_number:
  assumes "sg = [] \<or> sg = [45]" "list_all is_numchar body" "list_ex is_decimal body"
    and "digits_value (remove_commas body) = n" "n < 2 ^ 53"
  shows "format_amount (sg @ body) =
     Inr (sg @ group_nat (if 1000000 \<le> n \<and> n mod 1000000 = 0 then n div 1000000 else n))"
proof -
  have ne: "sg @ body \<noteq> []" using assms(3) by (auto simp: list_ex_iff)
  have pf: "py_float (if startswith_char 45 (remove_commas (sg @ body))
                    then tl (remove_commas (sg @ body)) else remove_commas (sg @ body)) =
          Inr (Fin (of_nat n))"
    using py_float_small [OF token_digits [OF assms(2,3)] assms(4,5)]
    by (simp only: token_unsigned(3) [OF assms(1-3)])
  have sgn: "(if startswith_char 45 (remove_commas (sg @ body)) then [45] else []) = sg"
    using assms(1) by (auto simp: token_unsigned(2) [OF assms(1-3)])
  show ?thesis
  proof (cases "1000000 \<le> n \<and> n mod 1000000 = 0")
    case True
    then have c: "(1000000 \<le> n \<and> n mod 1000000 = 0) = True" by simp
    have small: "n div 1000000 < 2 ^ 53" using assms(5) by (rule le_less_trans [OF div_le_dividend])
    have "format_amount (sg @ body) = Inr (sg @ group_nat (n div 1000000))"
      using format_amount_rescaled [OF ne pf _ _ small] True by (simp only: sgn)
    then show ?thesis unfolding c if_True .
  next
    case False
    then have c: "(1000000 \<le> n \<and> n mod 1000000 = 0) = False" by simp
    have "format_amount (sg @ body) = Inr (sg @ group_nat n)"
      using format_amount_plain [OF ne pf False] by (simp only: sgn)
    then show ?thesis unfolding c if_False .
  qed
qed

lemma item_amount_number:
  assumes "sg = [] \<or> sg = [45]" "list_all is_numchar body" "list_ex is_decimal body"
    and "digits_value (remove_commas body) = n"
  shows "item_amount (sg @ body) =
     Some (if sg = [45] then float_neg (round_double (of_nat n)) else round_double (of_nat n))"
proof -
  from assms(3) obtain c where c: "c \<in> set body" "is_decimal c" by (auto simp: list_ex_iff)
  then have "c \<in> set (sg @ body)" "\<not> isspace c" by (auto dest: is_decimal_not_space)
  then have st: "strip (sg @ body) \<noteq> []" by (rule strip_nonempty)
  have ne: "sg @ body \<noteq> []" using c by auto
  have pf: "py_float (remove_commas body) = Inr (round_double (of_nat n))"
    using py_float_digits [OF token_digits [OF assms(2,3)]] by (simp only: assms(4))
  show ?thesis
  proof (cases "sg = [45]")
    case True
    then have "remove_commas (sg @ body) = 45 # remove_commas body"
      by (simp add: remove_commas_def)
    then show ?thesis using True st ne by (simp add: item_amount_def Let_def startswith_char_def pf)
  next
    case False
    then have sg: "sg = []" using assms(1) by simp
    have "\<not> startswith_char 45 (remove_commas (sg @ body))"
      using token_unsigned(2) [OF assms(1-3)] False by simp
    then show ?thesis using st ne sg by (simp add: item_amount_def Let_def pf)
  qed
qed

lemma first_number_plain:
  assumes "is_numchar c" "\<not> is_signchar c" "\<forall>x\<in>set cs. is_numchar x"
  shows "first_number (c # cs) = Some (c # cs)"
  using assms by (simp add: takeWhile_eq_all_conv [THEN iffD2])

lemma classifier_result:
  assumes "strip nm \<noteq> []" "format_amount (clean_amount_value amount) = Inr fa"
  shows "map_item_to_bs_account mapping (Some nm) amount =
     Inr (map_option
            (\<lambda>acct. \<lparr>bs_level = get_account_level acct, bs_name = acct, bs_value = fa,
                      bs_note = extract_note_numbers amount\<rparr>)
            (search_mapping mapping (strip nm)))"
proof -
  have "nm \<noteq> []" using assms(1) by (auto simp: strip_def)
  then show ?thesis
    using assms by (simp add: map_item_to_bs_account_def Let_def split: option.splits)
qed

lemma classifier_raises:
  assumes "strip nm \<noteq> []" "format_amount (clean_amount_value amount) = Inl e"
  shows "map_item_to_bs_account mapping (Some nm) amount = Inl e"
proof -
  have "nm \<noteq> []" using assms(1) by (auto simp: strip_def)
  then show ?thesis using assms by (simp add: map_item_to_bs_account_def Let_def)
qed

subsection \<open>The first scenario (C1)\<close>

lemma strip_cash: "strip cash = cash"
  by (simp add: strip_def cash_def isspace_def)

lemma level_cash: "get_account_level cash = 2"
  by (simp add: get_account_level_def cash_def total_marker_def major_categories_def)

lemma search_cash: "search_mapping cash_mapping cash = Some cash"
  by (simp add: cash_mapping_def cash_def)

lemma clean_1234567:
  "clean_amount_value (Some [49, 44, 50, 51, 52, 44, 53, 54, 55]) = [49, 44, 50, 51, 52, 44, 53, 54, 55]"
  by (simp add: clean_amount_value_def is_signchar_def is_numchar_def is_decimal_def
        decimal_value_def startswith_char_def)

lemma clean_2000000:
  "clean_amount_value (Some [50, 44, 48, 48, 48, 44, 48, 48, 48]) = [50, 44, 48, 48, 48, 44, 48, 48, 48]"
  by (simp add: clean_amount_value_def is_signchar_def is_numchar_def is_decimal_def
        decimal_value_def startswith_char_def)

lemma format_1234567:
  "format_amount [49, 44, 50, 51, 52, 44, 53, 54, 55] = Inr [49, 44, 50, 51, 52, 44, 53, 54, 55]"
  using format_amount_number [of "[]" "[49, 44, 50, 51, 52, 44, 53, 54, 55]" 1234567]
  by (simp add: is_numchar_def is_decimal_def decimal_value_def remove_commas_def digits_value_def
        group_nat_examples)

lemma format_2000000: "format_amount [50, 44, 48, 48, 48, 44, 48, 48, 48] = Inr [50]"
  using format_amount_number [of "[]" "[50, 44, 48, 48, 48, 44, 48, 48, 48]" 2000000]
  by (simp add: is_numchar_def is_decimal_def decimal_value_def remove_commas_def digits_value_def
        group_nat_examples)

lemma note_of_number:
  "extract_note_numbers (Some [49, 44, 50, 51, 52, 44, 53, 54, 55]) = []"
  "extract_note_numbers (Some [50, 44, 48, 48, 48, 44, 48, 48, 48]) = []"
  by (simp_all add: extract_note_numbers_def strip_def)

lemma classify_cash_1:
  "map_item_to_bs_account cash_mapping (Some cash) (Some [49, 44, 50, 51, 52, 44, 53, 54, 55]) =
     Inr (Some \<lparr>bs_level = 2, bs_name = cash, bs_value = [49, 44, 50, 51, 52, 44, 53, 54, 55],
                bs_note = []\<rparr>)"
proof -
  have s: "strip cash \<noteq> []" by (simp add: strip_cash) (simp add: cash_def)
  have f: "format_amount (clean_amount_value (Some [49, 44, 50, 51, 52, 44, 53, 54, 55])) =
      Inr [49, 44, 50, 51, 52, 44, 53, 54, 55]"
    by (simp only: clean_1234567 format_1234567)
  show ?thesis
    unfolding classifier_result [OF s f] by (simp add: strip_cash search_cash level_cash note_of_number)
qed

lemma classify_cash_2:
  "map_item_to_bs_account cash_mapping (Some cash) (Some [50, 44, 48, 48, 48, 44, 48, 48, 48]) =
     Inr (Some \<lparr>bs_level = 2, bs_name = cash, bs_value = [50], bs_note = []\<rparr>)"
proof -
  have s: "strip cash \<noteq> []" by (simp add: strip_cash) (simp add: cash_def)
  have f: "format_amount (clean_amount_value (Some [50, 44, 48, 48, 48, 44, 48, 48, 48])) = Inr [50]"
    by (simp only: clean_2000000 format_2000000)
  show ?thesis
    unfolding classifier_result [OF s f] by (simp add: strip_cash search_cash level_cash note_of_number)
qed

lemma group_cash_rows:
  "group_items cash_mapping [] cash_rows =
     Inr [(cash, [\<lparr>bs_level = 2, bs_name = cash, bs_value = [49, 44, 50, 51, 52, 44, 53, 54, 55],
                    bs_note = []\<rparr>,
                  \<lparr>bs_level = 2, bs_name = cash, bs_value = [50], bs_note = []\<rparr>])]"
  by (simp add: cash_rows_def classify_cash_1 classify_cash_2)

lemma amount_1234567: "item_amount [49, 44, 50, 51, 52, 44, 53, 54, 55] = Some (Fin 1234567)"
  using item_amount_number [of "[]" "[49, 44, 50, 51, 52, 44, 53, 54, 55]" 1234567]
  by (simp add: is_numchar_def is_decimal_def decimal_value_def remove_commas_def digits_value_def
        round_double_numeral)

lemma amount_2: "item_amount [50] = Some (Fin 2)"
  using item_amount_number [of "[]" "[50]" 2]
  by (simp add: is_numchar_def is_decimal_def decimal_value_def remove_commas_def digits_value_def
        round_double_numeral)

lemma format_total_1234569: "format_total (Fin 1234569) = Inr [49, 44, 50, 51, 52, 44, 53, 54, 57]"
  by (simp add: format_total_def format_int_def group_nat_examples)

lemma consolidate_cash:
  "consolidate [(cash, [\<lparr>bs_level = 2, bs_name = cash, bs_value = [49, 44, 50, 51, 52, 44, 53, 54, 55],
                          bs_note = []\<rparr>,
                        \<lparr>bs_level = 2, bs_name = cash, bs_value = [50], bs_note = []\<rparr>])] =
     Inr [(cash, \<lparr>bs_level = 2, bs_name = cash, bs_value = [49, 44, 50, 51, 52, 44, 53, 54, 57],
                  bs_note = []\<rparr>)]"
  by (simp add: amount_1234567 amount_2 round_double_numeral format_total_1234569)

subsection \<open>The layout\<close>

lemma add_item_row_with_grouping_25:
  "list_all (\<lambda>row. length row = 25) (add_item_row_with_grouping nm item_dict lvl)"
  by (simp add: add_item_row_with_grouping_def Let_def split: option.splits)

lemma subcategory_rows_25: "list_all (\<lambda>row. length row = 25) (subcategory_rows item_dict sc)"
proof (cases sc)
  case (Pair subcat node)
  then show ?thesis
    using add_item_row_with_grouping_25
    by (cases node) (auto simp: list_all_iff)
qed

lemma category_rows_25: "list_all (\<lambda>row. length row = 25) (category_rows item_dict c)"
proof (cases c)
  case (Pair category node)
  then show ?thesis
    using add_item_row_with_grouping_25 subcategory_rows_25
    by (cases node) (auto simp: list_all_iff)
qed

lemma build_section_rows_25:
  "list_all (\<lambda>row. length row = 25) (build_section_with_grouping bs section_name item_dict)"
  using category_rows_25 by (auto simp: build_section_with_grouping_def list_all_iff)

lemma convert_rows_id:
  "list_all (\<lambda>row. length row = 25) bs_table \<Longrightarrow> convert_to_csv_format bs_table = bs_table"
  by (induction bs_table) (simp_all add: convert_to_csv_format_def standardize_row_def)

lemma builder_table:
  assumes "build_balance_sheet_structure_with_grouping bs d = Inr bs_table"
  shows "list_all (\<lambda>row. length row = 25) bs_table" and "3 \<le> length bs_table"
proof -
  from assms obtain c where t: "bs_table = build_section_with_grouping bs assets_section c
       @ [replicate 25 []] @ build_section_with_grouping bs liabilities_section c"
    by (auto simp: build_balance_sheet_structure_with_grouping_def split: sum.splits)
  show "list_all (\<lambda>row. length row = 25) bs_table"
    by (simp add: t build_section_rows_25)
  show "3 \<le> length bs_table" by (simp add: t build_section_with_grouping_def)
qed

lemma transform_items_table:
  assumes "group_items (cfg_account_mapping cfg) [] items = Inr d"
    and "build_balance_sheet_structure_with_grouping (cfg_structure cfg) d = Inr bs_table"
  shows "transform_items cfg items = Inr bs_table"
  using assms convert_rows_id [OF builder_table(1) [OF assms(2)]] by (simp add: transform_items_def)

lemma default_table:
  "build_balance_sheet_structure_with_grouping default_structure d = Inr bs_table \<Longrightarrow>
   length bs_table = 72"
  by (auto simp: build_balance_sheet_structure_with_grouping_def build_section_with_grouping_def
        default_structure_def assets_section_def liabilities_section_def
        add_item_row_with_grouping_def Let_def split: sum.splits)

lemma transform_cash_rows:
  "transform_items cash_config cash_rows =
     Inr (build_section_with_grouping default_structure assets_section
            [(cash, \<lparr>bs_level = 2, bs_name = cash, bs_value = [49, 44, 50, 51, 52, 44, 53, 54, 57],
                     bs_note = []\<rparr>)]
          @ [replicate 25 []]
          @ build_section_with_grouping default_structure liabilities_section
            [(cash, \<lparr>bs_level = 2, bs_name = cash, bs_value = [49, 44, 50, 51, 52, 44, 53, 54, 57],
                     bs_note = []\<rparr>)])"
proof (rule transform_items_table)
  show "group_items (cfg_account_mapping cash_config) [] cash_rows =
     Inr [(cash, [\<lparr>bs_level = 2, bs_name = cash, bs_value = [49, 44, 50, 51, 52, 44, 53, 54, 55],
                    bs_note = []\<rparr>,
                  \<lparr>bs_level = 2, bs_name = cash, bs_value = [50], bs_note = []\<rparr>])]"
    by (simp add: cash_config_def group_cash_rows)
  show "build_balance_sheet_structure_with_grouping (cfg_structure cash_config)
      [(cash, [\<lparr>bs_level = 2, bs_name = cash, bs_value = [49, 44, 50, 51, 52, 44, 53, 54, 55],
                    bs_note = []\<rparr>,
                  \<lparr>bs_level = 2, bs_name = cash, bs_value = [50], bs_note = []\<rparr>])] =
     Inr (build_section_with_grouping default_structure assets_section
            [(cash, \<lparr>bs_level = 2, bs_name = cash, bs_value = [49, 44, 50, 51, 52, 44, 53, 54, 57],
                     bs_note = []\<rparr>)]
          @ [replicate 25 []]
          @ build_section_with_grouping default_structure liabilities_section
            [(cash, \<lparr>bs_level = 2, bs_name = cash, bs_value = [49, 44, 50, 51, 52, 44, 53, 54, 57],
                     bs_note = []\<rparr>)])"
    unfolding build_balance_sheet_structure_with_grouping_def consolidate_cash
    by (simp add: cash_config_def)
qed

text \<open>
  C1: the two raw items of the scenario, both classified to the one account. The
  classifier formats each value before the grouping, so \<open>2,000,000\<close> enters the sum as
  \<open>2\<close>: the consolidated entry, the only one, carries \<open>1,234,569\<close>, and so does the amount
  cell of the account's row in the returned table, where the scenario expects
  \<open>3,234,567\<close>.
\<close>

theorem cash_total_mixes_units:
  "format_amount [50, 44, 48, 48, 48, 44, 48, 48, 48] = Inr [50] \<and>
   (case group_items cash_mapping [] cash_rows of Inl e \<Rightarrow> Inl e | Inr d \<Rightarrow> consolidate d) =
     Inr [(cash, \<lparr>bs_level = 2, bs_name = cash, bs_value = [49, 44, 50, 51, 52, 44, 53, 54, 57],
                  bs_note = []\<rparr>)] \<and>
   (case transform_items cash_config cash_rows of
      Inl e \<Rightarrow> []
    | Inr t \<Rightarrow> [t ! 2 ! 2, t ! 2 ! 9]) = [cash, [34, 49, 44, 50, 51, 52, 44, 53, 54, 57, 34]]"
proof -
  have 1: "format_amount [50, 44, 48, 48, 48, 44, 48, 48, 48] = Inr [50]" by (rule format_2000000)
  have 2: "(case group_items cash_mapping [] cash_rows of Inl e \<Rightarrow> Inl e | Inr d \<Rightarrow> consolidate d) =
     Inr [(cash, \<lparr>bs_level = 2, bs_name = cash, bs_value = [49, 44, 50, 51, 52, 44, 53, 54, 57],
                  bs_note = []\<rparr>)]"
    unfolding group_cash_rows sum.case consolidate_cash ..
  have 3: "(case transform_items cash_config cash_rows of
      Inl e \<Rightarrow> []
    | Inr t \<Rightarrow> [t ! 2 ! 2, t ! 2 ! 9]) = [cash, [34, 49, 44, 50, 51, 52, 44, 53, 54, 57, 34]]"
    unfolding transform_cash_rows sum.case
    by (simp add: build_section_with_grouping_def default_structure_def assets_section_def
          add_item_row_with_grouping_def cash_def)
  from 1 2 3 show ?thesis by (intro conjI)
qed

subsection \<open>The second scenario (C2)\<close>

lemma strip_building: "strip building = building"
  by (simp add: strip_def building_def isspace_def)

lemma clean_triangle_500000:
  "clean_amount_value (Some [9651, 53, 48, 48, 44, 48, 48, 48]) = [45, 53, 48, 48, 44, 48, 48, 48]"
  by (simp add: clean_amount_value_def is_signchar_def is_numchar_def is_decimal_def
        decimal_value_def startswith_char_def)

lemma format_minus_500000:
  "format_amount [45, 53, 48, 48, 44, 48, 48, 48] = Inr [45, 53, 48, 48, 44, 48, 48, 48]"
  using format_amount_number [of "[45]" "[53, 48, 48, 44, 48, 48, 48]" 500000]
  by (simp add: is_numchar_def is_decimal_def decimal_value_def remove_commas_def digits_value_def
        group_nat_examples)

lemma amount_minus_500000: "item_amount [45, 53, 48, 48, 44, 48, 48, 48] = Some (Fin (- 500000))"
  using item_amount_number [of "[45]" "[53, 48, 48, 44, 48, 48, 48]" 500000]
  by (simp add: is_numchar_def is_decimal_def decimal_value_def remove_commas_def digits_value_def
        round_double_numeral)

lemma classify_building:
  "map_item_to_bs_account (cfg_account_mapping building_config) (Some building)
       (Some [9651, 53, 48, 48, 44, 48, 48, 48]) =
     Inr (Some \<lparr>bs_level = 2, bs_name = building_account,
                bs_value = [45, 53, 48, 48, 44, 48, 48, 48], bs_note = []\<rparr>)"
proof -
  have s: "strip building \<noteq> []" by (simp add: strip_building) (simp add: building_def)
  have f: "format_amount (clean_amount_value (Some [9651, 53, 48, 48, 44, 48, 48, 48])) =
      Inr [45, 53, 48, 48, 44, 48, 48, 48]"
    by (simp only: clean_triangle_500000 format_minus_500000)
  have l: "get_account_level building_account = 2"
    by (simp add: get_account_level_def building_account_def total_marker_def major_categories_def)
  have n: "extract_note_numbers (Some [9651, 53, 48, 48, 44, 48, 48, 48]) = []"
    by (simp add: extract_note_numbers_def strip_def is_notechar_def)
  have m: "search_mapping (cfg_account_mapping building_config) building = Some building_account"
    by (simp add: building_config_def building_def)
  show ?thesis
    unfolding classifier_result [OF s f] by (simp add: strip_building m l n)
qed

lemma sum_minus_500000:
  "sum_items (Fin 0, False)
     [\<lparr>bs_level = 2, bs_name = building_account, bs_value = [45, 53, 48, 48, 44, 48, 48, 48],
       bs_note = []\<rparr>] = (Fin (- 500000), True)"
  by (simp add: amount_minus_500000 round_double_neg_numeral)

lemma format_total_minus_500000:
  "format_total (Fin (- 500000)) = Inr [45, 53, 48, 48, 44, 48, 48, 48]"
  by (simp add: format_total_def format_int_def group_nat_examples)

lemma transform_building_rows:
  "transform_items building_config building_rows =
     Inr (build_section_with_grouping default_structure assets_section
            [(building_account, \<lparr>bs_level = 2, bs_name = building_account,
                bs_value = [45, 53, 48, 48, 44, 48, 48, 48], bs_note = []\<rparr>)]
          @ [replicate 25 []]
          @ build_section_with_grouping default_structure liabilities_section
            [(building_account, \<lparr>bs_level = 2, bs_name = building_account,
                bs_value = [45, 53, 48, 48, 44, 48, 48, 48], bs_note = []\<rparr>)])"
proof (rule transform_items_table)
  show "group_items (cfg_account_mapping building_config) [] building_rows =
     Inr [(building_account, [\<lparr>bs_level = 2, bs_name = building_account,
                bs_value = [45, 53, 48, 48, 44, 48, 48, 48], bs_note = []\<rparr>])]"
    by (simp add: building_rows_def classify_building)
  show "build_balance_sheet_structure_with_grouping (cfg_structure building_config)
      [(building_account, [\<lparr>bs_level = 2, bs_name = building_account,
                bs_value = [45, 53, 48, 48, 44, 48, 48, 48], bs_note = []\<rparr>])] =
     Inr (build_section_with_grouping default_structure assets_section
            [(building_account, \<lparr>bs_level = 2, bs_name = building_account,
                bs_value = [45, 53, 48, 48, 44, 48, 48, 48], bs_note = []\<rparr>)]
          @ [replicate 25 []]
          @ build_section_with_grouping default_structure liabilities_section
            [(building_account, \<lparr>bs_level = 2, bs_name = building_account,
                bs_value = [45, 53, 48, 48, 44, 48, 48, 48], bs_note = []\<rparr>)])"
    by (simp add: build_balance_sheet_structure_with_grouping_def amount_minus_500000
          round_double_neg_numeral format_total_minus_500000 building_config_def)
qed

text \<open>
  C2: the raw item of the scenario, alone in its group. The value is cleaned to
  \<open>-500,000\<close>, the group sums to \<open>-500000\<close>, and the grouping path prints the total with
  the ASCII minus: the amount cell of the account's row in the returned table is
  \<open>"-500,000"\<close>. The unused sibling \<open>_add_item_row\<close> prints the same total with the
  triangle.
\<close>

theorem negative_total_keeps_minus:
  "clean_amount_value (Some [9651, 53, 48, 48, 44, 48, 48, 48]) = [45, 53, 48, 48, 44, 48, 48, 48] \<and>
   (case transform_items building_config building_rows of
      Inl e \<Rightarrow> []
    | Inr t \<Rightarrow> [t ! 14 ! 2, t ! 14 ! 9]) =
     [building_account, [34, 45, 53, 48, 48, 44, 48, 48, 48, 34]] \<and>
   add_item_row building_account
     [(building_account, \<lparr>bs_level = 2, bs_name = building_account,
         bs_value = [45, 53, 48, 48, 44, 48, 48, 48], bs_note = []\<rparr>)] 3 =
     Inr [(replicate 25 [])[2 := building_account, 9 := [34, 9651, 53, 48, 48, 44, 48, 48, 48, 34]]]"
proof -
  have 1: "clean_amount_value (Some [9651, 53, 48, 48, 44, 48, 48, 48]) =
      [45, 53, 48, 48, 44, 48, 48, 48]" by (rule clean_triangle_500000)
  have 2: "(case transform_items building_config building_rows of
      Inl e \<Rightarrow> []
    | Inr t \<Rightarrow> [t ! 14 ! 2, t ! 14 ! 9]) =
     [building_account, [34, 45, 53, 48, 48, 44, 48, 48, 48, 34]]"
    unfolding transform_building_rows sum.case
    by (simp add: build_section_with_grouping_def default_structure_def assets_section_def
          add_item_row_with_grouping_def building_account_def)
  have 3: "add_item_row building_account
     [(building_account, \<lparr>bs_level = 2, bs_name = building_account,
         bs_value = [45, 53, 48, 48, 44, 48, 48, 48], bs_note = []\<rparr>)] 3 =
     Inr [(replicate 25 [])[2 := building_account, 9 := [34, 9651, 53, 48, 48, 44, 48, 48, 48, 34]]]"
    by (simp add: add_item_row_def amount_minus_500000 round_double_neg_numeral
          format_total_glyph_def group_nat_examples)
  from 1 2 3 show ?thesis by (intro conjI)
qed

subsection \<open>A value beyond the range of binary64 (C6)\<close>

lemma foldl_digits_zeros:
  "foldl (\<lambda>acc c. 10 * acc + the (decimal_value c)) a (replicate n 48) = a * 10 ^ n"
  by (induction n arbitrary: a) (simp_all add: decimal_value_def)

lemma digits_value_big: "digits_value big_amount = 10 ^ 309"
proof -
  have d: "10 * 0 + the (decimal_value 49) = 1" by (simp add: decimal_value_def)
  show ?thesis
    unfolding big_amount_def digits_value_def foldl_Cons foldl_digits_zeros d by simp
qed

lemma big_amount_digits: "\<forall>c\<in>set big_amount. is_decimal c"
  by (simp add: big_amount_def is_decimal_def decimal_value_def)

lemma big_amount_plain:
  "big_amount \<noteq> []" "strip big_amount \<noteq> []" "remove_commas big_amount = big_amount"
  "\<not> startswith_char 45 big_amount" "first_number big_amount = Some big_amount"
  "\<not> startswith_char 9651 big_amount"
proof -
  show "big_amount \<noteq> []" by (simp add: big_amount_def)
  have "49 \<in> set big_amount" "\<not> isspace 49" by (simp_all add: big_amount_def isspace_def)
  then show "strip big_amount \<noteq> []" by (rule strip_nonempty)
  show "remove_commas big_amount = big_amount"
    by (simp add: big_amount_def remove_commas_def)
  show "\<not> startswith_char 45 big_amount" by (simp add: big_amount_def startswith_char_def)
  show "\<not> startswith_char 9651 big_amount" by (simp add: big_amount_def startswith_char_def)
  have "first_number (49 # replicate 309 48) = Some (49 # replicate 309 48)"
    by (rule first_number_plain)
       (simp_all add: is_numchar_def is_signchar_def is_decimal_def decimal_value_def)
  then show "first_number big_amount = Some big_amount" by (simp only: big_amount_def)
qed

lemma py_float_big: "py_float big_amount = Inr PInf"
proof -
  have "(2::rat) ^ 1024 \<le> of_nat (10 ^ 309)" by simp
  then have "round_double (of_nat (10 ^ 309)) = PInf" by (rule round_double_overflow)
  then show ?thesis
    using py_float_digits [OF big_amount_plain(1) big_amount_digits]
    by (simp only: digits_value_big)
qed

lemma format_amount_big: "format_amount big_amount = Inl OverflowError"
proof -
  have "py_float (if startswith_char 45 (remove_commas big_amount)
                  then tl (remove_commas big_amount) else remove_commas big_amount) = Inr PInf"
    by (simp only: big_amount_plain if_False py_float_big)
  from format_amount_unfold [OF big_amount_plain(1) this] show ?thesis
    by simp
qed

lemma clean_big: "clean_amount_value (Some big_amount) = big_amount"
  by (simp add: clean_amount_value_def big_amount_plain)

lemma classify_big:
  "map_item_to_bs_account cash_mapping (Some cash) (Some big_amount) = Inl OverflowError"
proof (rule classifier_raises)
  show "strip cash \<noteq> []" by (simp add: strip_cash) (simp add: cash_def)
  show "format_amount (clean_amount_value (Some big_amount)) = Inl OverflowError"
    by (simp only: clean_big format_amount_big)
qed

lemma label_value_frame:
  assumes "columns df = label_value_columns"
  shows "filter_current_year df = Inr df"
    and "detect_item_name_column df = Some [38917, 30446, 21517]"
    and "detect_value_column df = Some [20516]"
proof -
  have n: "column_names df = [[38917, 30446, 21517], [20516]]"
    by (simp add: column_names_def assms label_value_columns_def)
  show "filter_current_year df = Inr df"
    by (simp add: filter_current_year_def n context_id_col_def relative_year_col_def
          is_instant_col_def)
  show "detect_item_name_column df = Some [38917, 30446, 21517]"
    by (simp add: detect_item_name_column_def n item_name_candidates_def)
  show "detect_value_column df = Some [20516]"
    by (simp add: detect_value_column_def n value_candidates_def)
qed

lemma transform_label_value_frame:
  assumes "columns df = label_value_columns"
  shows "transform_to_balance_sheet cfg df =
     transform_items cfg (map (row_item df [38917, 30446, 21517] [20516]) (rows df))"
  by (simp add: transform_to_balance_sheet_def label_value_frame [OF assms])

lemma row_item_label_value:
  assumes "columns df = label_value_columns"
  shows "row_item df [38917, 30446, 21517] [20516] [Str a, Str b] = (a, b)"
  by (simp add: row_item_def row_get_def column_names_def assms label_value_columns_def cell_at_def)

text \<open>
  C6: a frame whose only row has the label of a mapped account and a value of 310 digits.
  The value is a decimal numeral, so \<open>float\<close> accepts it and returns infinity; \<open>int\<close> of
  infinity raises \<open>OverflowError\<close>, which the handler of \<open>format_amount\<close> (for
  \<open>ValueError\<close> and \<open>TypeError\<close>) does not catch, and which no caller up to
  \<open>transform_to_balance_sheet\<close> catches. A frame without columns gives the empty table.
\<close>

theorem overflow_escapes_transform:
  "format_amount big_amount = Inl OverflowError \<and>
   transform_to_balance_sheet cash_config overflow_frame = Inl OverflowError \<and>
   transform_to_balance_sheet cash_config \<lparr>columns = [], rows = []\<rparr> = Inr []"
proof -
  have c: "columns overflow_frame = label_value_columns" by (simp add: overflow_frame_def)
  have r: "map (row_item overflow_frame [38917, 30446, 21517] [20516]) (rows overflow_frame) =
      [(cash, big_amount)]"
    using row_item_label_value [OF c, of cash big_amount] by (simp add: overflow_frame_def)
  have 2: "transform_to_balance_sheet cash_config overflow_frame = Inl OverflowError"
    unfolding transform_label_value_frame [OF c] r
    by (simp add: transform_items_def cash_config_def classify_big)
  have 3: "transform_to_balance_sheet cash_config \<lparr>columns = [], rows = []\<rparr> = Inr []"
    by (simp add: transform_to_balance_sheet_def filter_current_year_def column_names_def
          detect_item_name_column_def detect_value_column_def item_name_candidates_def
          value_candidates_def convert_to_csv_format_def)
  from format_amount_big 2 3 show ?thesis by (intro conjI)
qed

subsection \<open>Leaves of a direct list (C3)\<close>

text \<open>
  C3: a category whose template value is a direct list. The grouping path, the one
  \<open>transform_to_balance_sheet\<close> runs, writes the header with the category in cell 1 and
  one row per leaf with the leaf in cell 2 (level 3), cell 1 left empty; so does the
  returned table for the first category of the default template. The sibling
  \<open>_build_section\<close> writes the same leaves in cell 1 (level 2).
\<close>

theorem direct_list_leaf_in_third_cell:
  "build_section_with_grouping two_leaf_structure assets_section [] =
     [[assets_section] @ replicate 24 [],
      [[], current_assets] @ replicate 23 [],
      (replicate 25 [])[2 := cash],
      (replicate 25 [])[2 := [12467, 12540, 12523, 12525, 12540, 12531]]] \<and>
   build_section two_leaf_structure assets_section [] =
     Inr [[assets_section] @ replicate 24 [],
          [[], current_assets] @ replicate 23 [],
          (replicate 25 [])[1 := cash],
          (replicate 25 [])[1 := [12467, 12540, 12523, 12525, 12540, 12531]]] \<and>
   (case transform_to_balance_sheet default_config zero_row_frame of
      Inl e \<Rightarrow> []
    | Inr t \<Rightarrow> [t ! 1 ! 1, t ! 2 ! 1, t ! 2 ! 2, t ! 3 ! 1, t ! 3 ! 2]) =
     [current_assets, [], cash, [], [12467, 12540, 12523, 12525, 12540, 12531]]"
proof -
  have 1: "build_section_with_grouping two_leaf_structure assets_section [] =
     [[assets_section] @ replicate 24 [],
      [[], current_assets] @ replicate 23 [],
      (replicate 25 [])[2 := cash],
      (replicate 25 [])[2 := [12467, 12540, 12523, 12525, 12540, 12531]]]"
    by (simp add: build_section_with_grouping_def two_leaf_structure_def
          add_item_row_with_grouping_def)
  have 2: "build_section two_leaf_structure assets_section [] =
     Inr [[assets_section] @ replicate 24 [],
          [[], current_assets] @ replicate 23 [],
          (replicate 25 [])[1 := cash],
          (replicate 25 [])[1 := [12467, 12540, 12523, 12525, 12540, 12531]]]"
    by (simp add: build_section_def two_leaf_structure_def add_item_row_def)
  have c: "columns zero_row_frame = label_value_columns"
    by (simp add: zero_row_frame_def label_value_columns_def)
  have t: "transform_to_balance_sheet default_config zero_row_frame =
      Inr (build_section_with_grouping default_structure assets_section []
           @ [replicate 25 []]
           @ build_section_with_grouping default_structure liabilities_section [])"
    unfolding transform_label_value_frame [OF c]
    by (rule transform_items_table [where d = "[]"])
       (simp_all add: zero_row_frame_def default_config_def
          build_balance_sheet_structure_with_grouping_def)
  have 3: "(case transform_to_balance_sheet default_config zero_row_frame of
      Inl e \<Rightarrow> []
    | Inr t \<Rightarrow> [t ! 1 ! 1, t ! 2 ! 1, t ! 2 ! 2, t ! 3 ! 1, t ! 3 ! 2]) =
     [current_assets, [], cash, [], [12467, 12540, 12523, 12525, 12540, 12531]]"
    unfolding t sum.case
    by (simp add: build_section_with_grouping_def default_structure_def assets_section_def
          add_item_row_with_grouping_def cash_def current_assets_def)
  from 1 2 3 show ?thesis by (intro conjI)
qed

subsection \<open>The classifier on a table of three accounts\<close>

lemma format_5: "format_amount (clean_amount_value (Some [53])) = Inr [53]"
proof -
  have c: "clean_amount_value (Some [53]) = [53]"
    by (simp add: clean_amount_value_def is_signchar_def is_numchar_def is_decimal_def
          decimal_value_def startswith_char_def)
  have "format_amount [53] = Inr [53]"
    using format_amount_number [of "[]" "[53]" 5]
    by (simp add: is_numchar_def is_decimal_def decimal_value_def remove_commas_def
          digits_value_def group_nat_examples)
  then show ?thesis by (simp only: c)
qed

text \<open>
  The table of three accounts: no label, a blank label, the label \<open>" ab "\<close>, which the
  patterns of the second and the third account match, and the label \<open>"q"\<close>.
\<close>

theorem classifier_first_match_witness:
  "map_item_to_bs_account three_accounts None (Some [53]) = Inr None \<and>
   map_item_to_bs_account three_accounts (Some [32, 32]) (Some [53]) = Inr None \<and>
   map_item_to_bs_account three_accounts (Some [32, 97, 98, 32]) (Some [53]) =
     Inr (Some \<lparr>bs_level = 2, bs_name = [89], bs_value = [53], bs_note = []\<rparr>) \<and>
   map_item_to_bs_account three_accounts (Some [113]) (Some [53]) = Inr None"
proof -
  have s1: "strip [32, 32] = []" by (simp add: strip_def isspace_def)
  have s2: "strip [32, 97, 98, 32] = [97, 98]" by (simp add: strip_def isspace_def)
  have s3: "strip [113] = [113]" by (simp add: strip_def isspace_def)
  have m2: "first_matching_account three_accounts [97, 98] = Some [89]"
    by (simp add: first_matching_account_def three_accounts_def)
  have m3: "first_matching_account three_accounts [113] = None"
    by (simp add: first_matching_account_def three_accounts_def)
  have l: "get_account_level [89] = 2"
    by (simp add: get_account_level_def total_marker_def major_categories_def)
  have n: "extract_note_numbers (Some [53]) = []"
    by (simp add: extract_note_numbers_def strip_def is_notechar_def)
  from classifier_first_match [of three_accounts "Some [53]" "[32, 32]" "[53]"]
  have 1: "map_item_to_bs_account three_accounts None (Some [53]) = Inr None"
    and 2: "map_item_to_bs_account three_accounts (Some [32, 32]) (Some [53]) = Inr None"
    by (simp_all add: s1)
  from classifier_first_match [of three_accounts "Some [53]" "[32, 97, 98, 32]" "[53]"]
  have 3: "map_item_to_bs_account three_accounts (Some [32, 97, 98, 32]) (Some [53]) =
     Inr (Some \<lparr>bs_level = 2, bs_name = [89], bs_value = [53], bs_note = []\<rparr>)"
    by (simp add: s2 format_5 m2 l n)
  from classifier_first_match [of three_accounts "Some [53]" "[113]" "[53]"]
  have 4: "map_item_to_bs_account three_accounts (Some [113]) (Some [53]) = Inr None"
    by (simp add: s3 format_5 m3)
  from 1 2 3 4 show ?thesis by (intro conjI)
qed

subsection \<open>The returned table (C5)\<close>

lemma length_convert: "length (convert_to_csv_format bs_table) = length bs_table"
  by (simp add: convert_to_csv_format_def)

lemma convert_row:
  "i < length bs_table \<Longrightarrow>
   convert_to_csv_format bs_table ! i =
     (if length (bs_table ! i) < 25 then bs_table ! i @ replicate (25 - length (bs_table ! i)) []
      else if 25 < length (bs_table ! i) then take 25 (bs_table ! i)
      else bs_table ! i)"
  by (simp add: convert_to_csv_format_def standardize_row_def)

lemma transform_columns_found:
  assumes "filter_current_year df = Inr cur"
    and "detect_item_name_column cur = Some ic" "detect_value_column cur = Some vc"
    and "ic \<noteq> []" "vc \<noteq> []"
    and "group_items (cfg_account_mapping cfg) [] (map (row_item cur ic vc) (rows cur)) = Inr d"
    and "build_balance_sheet_structure_with_grouping (cfg_structure cfg) d = Inr bs_table"
  shows "transform_to_balance_sheet cfg df = Inr (convert_to_csv_format bs_table)"
  using assms by (simp add: transform_to_balance_sheet_def transform_items_def)

lemma transform_no_columns:
  assumes "filter_current_year df = Inr cur"
    and "detect_item_name_column cur = None \<or> detect_value_column cur = None"
  shows "transform_to_balance_sheet cfg df = Inr []"
  using assms
  by (auto simp: transform_to_balance_sheet_def convert_to_csv_format_def split: option.splits)

text \<open>
  C5. Every row of a table that \<open>transform_to_balance_sheet\<close> returns has exactly 25
  cells. When the period filter returns, both columns are detected, the rows are
  classified and the layout is built, the returned table is \<open>convert_to_csv_format\<close>
  applied to the rows of the layout builder, and it has at least three rows; when a
  column is not detected it is the empty table. A frame with no rows does give a table
  (when its context column, if it has one, is of dtype object). The standardization
  step keeps the number of rows, and its row \<open>i\<close> is row \<open>i\<close> of its input padded with
  empty strings when shorter than 25, cut to its first 25 cells when longer, and kept
  as it is otherwise: 25 cells in every case.
\<close>

theorem every_output_row_has_25_cells:
  "(transform_to_balance_sheet cfg df = Inr t \<longrightarrow> list_all (\<lambda>row. length row = 25) t) \<and>
   (filter_current_year df = Inr cur \<and>
    detect_item_name_column cur = Some ic \<and> detect_value_column cur = Some vc \<and>
    ic \<noteq> [] \<and> vc \<noteq> [] \<and>
    group_items (cfg_account_mapping cfg) [] (map (row_item cur ic vc) (rows cur)) = Inr d \<and>
    build_balance_sheet_structure_with_grouping (cfg_structure cfg) d = Inr bs_table
    \<longrightarrow> transform_to_balance_sheet cfg df = Inr (convert_to_csv_format bs_table) \<and>
        3 \<le> length (convert_to_csv_format bs_table)) \<and>
   (filter_current_year df = Inr cur \<and>
    (detect_item_name_column cur = None \<or> detect_value_column cur = None)
    \<longrightarrow> transform_to_balance_sheet cfg df = Inr []) \<and>
   (rows df = [] \<longrightarrow>
      (context_id_col \<in> set (column_names df) \<longrightarrow> dtype_of df context_id_col = Object) \<longrightarrow>
      (\<exists>t0. transform_to_balance_sheet cfg df = Inr t0)) \<and>
   length (convert_to_csv_format table) = length table \<and>
   (\<forall>i<length table.
      convert_to_csv_format table ! i =
        (if length (table ! i) < 25 then table ! i @ replicate (25 - length (table ! i)) []
         else if 25 < length (table ! i) then take 25 (table ! i)
         else table ! i) \<and>
      length (convert_to_csv_format table ! i) = 25)"
proof (intro conjI impI allI)
  assume "transform_to_balance_sheet cfg df = Inr t"
  then show "list_all (\<lambda>row. length row = 25) t" by (rule transform_rows_25)
next
  assume a: "filter_current_year df = Inr cur \<and>
    detect_item_name_column cur = Some ic \<and> detect_value_column cur = Some vc \<and>
    ic \<noteq> [] \<and> vc \<noteq> [] \<and>
    group_items (cfg_account_mapping cfg) [] (map (row_item cur ic vc) (rows cur)) = Inr d \<and>
    build_balance_sheet_structure_with_grouping (cfg_structure cfg) d = Inr bs_table"
  then show "transform_to_balance_sheet cfg df = Inr (convert_to_csv_format bs_table)"
    by (intro transform_columns_found [where cur = cur and ic = ic and vc = vc and d = d]) simp_all
  from a have "3 \<le> length bs_table" by (intro builder_table(2) [where bs = "cfg_structure cfg" and d = d]) simp
  then show "3 \<le> length (convert_to_csv_format bs_table)" by (simp only: length_convert)
next
  assume "filter_current_year df = Inr cur \<and>
    (detect_item_name_column cur = None \<or> detect_value_column cur = None)"
  then show "transform_to_balance_sheet cfg df = Inr []"
    by (intro transform_no_columns [where cur = cur]) simp_all
next
  assume "rows df = []"
    "context_id_col \<in> set (column_names df) \<longrightarrow> dtype_of df context_id_col = Object"
  then show "\<exists>t0. transform_to_balance_sheet cfg df = Inr t0" by (rule transform_zero_rows)
next
  show "length (convert_to_csv_format table) = length table" by (rule length_convert)
next
  fix i assume i: "i < length table"
  then show "convert_to_csv_format table ! i =
        (if length (table ! i) < 25 then table ! i @ replicate (25 - length (table ! i)) []
         else if 25 < length (table ! i) then take 25 (table ! i)
         else table ! i)" by (rule convert_row)
  from i show "length (convert_to_csv_format table ! i) = 25"
    by (simp add: convert_to_csv_format_def length_standardize_row)
qed

lemma classify_one_row:
  "group_items (cfg_account_mapping cash_config) []
     (map (row_item one_row_frame [38917, 30446, 21517] [20516]) (rows one_row_frame)) =
   Inr [(cash, [\<lparr>bs_level = 2, bs_name = cash, bs_value = [49, 44, 50, 51, 52, 44, 53, 54, 55],
                  bs_note = []\<rparr>])]"
proof -
  have c: "columns one_row_frame = label_value_columns" by (simp add: one_row_frame_def)
  have r: "map (row_item one_row_frame [38917, 30446, 21517] [20516]) (rows one_row_frame) =
      [(cash, [49, 44, 50, 51, 52, 44, 53, 54, 55])]"
    using row_item_label_value [OF c, of cash "[49, 44, 50, 51, 52, 44, 53, 54, 55]"]
    by (simp add: one_row_frame_def)
  show ?thesis unfolding r by (simp add: cash_config_def classify_cash_1)
qed

lemma format_total_1234567: "format_total (Fin 1234567) = Inr [49, 44, 50, 51, 52, 44, 53, 54, 55]"
  by (simp add: format_total_def format_int_def group_nat_examples)

lemma build_one_row:
  "build_balance_sheet_structure_with_grouping (cfg_structure cash_config)
     [(cash, [\<lparr>bs_level = 2, bs_name = cash, bs_value = [49, 44, 50, 51, 52, 44, 53, 54, 55],
                bs_note = []\<rparr>])] =
   Inr (build_section_with_grouping default_structure assets_section
          [(cash, \<lparr>bs_level = 2, bs_name = cash, bs_value = [49, 44, 50, 51, 52, 44, 53, 54, 55],
                   bs_note = []\<rparr>)]
        @ [replicate 25 []]
        @ build_section_with_grouping default_structure liabilities_section
          [(cash, \<lparr>bs_level = 2, bs_name = cash, bs_value = [49, 44, 50, 51, 52, 44, 53, 54, 55],
                   bs_note = []\<rparr>)])"
  by (simp add: build_balance_sheet_structure_with_grouping_def cash_config_def amount_1234567
        round_double_numeral format_total_1234567)

text \<open>
  The frame with one row of the first scenario gives a table of 72 rows of 25 cells,
  whose third row carries the amount; a table of a short, a long and a full row is
  standardized row by row.
\<close>

theorem every_output_row_has_25_cells_witness:
  "(case transform_to_balance_sheet cash_config one_row_frame of
      Inl e \<Rightarrow> (0, [], [], False)
    | Inr t \<Rightarrow> (length t, t ! 2 ! 2, t ! 2 ! 9, list_all (\<lambda>row. length row = 25) t)) =
     (72, cash, [34, 49, 44, 50, 51, 52, 44, 53, 54, 55, 34], True) \<and>
   transform_to_balance_sheet cash_config \<lparr>columns = [], rows = []\<rparr> = Inr [] \<and>
   length (convert_to_csv_format [[[49], [50]], replicate 30 [49], replicate 25 [51]]) = 3 \<and>
   convert_to_csv_format [[[49], [50]], replicate 30 [49], replicate 25 [51]] ! 0 =
     [[49], [50]] @ replicate 23 [] \<and>
   convert_to_csv_format [[[49], [50]], replicate 30 [49], replicate 25 [51]] ! 1 =
     replicate 25 [49] \<and>
   convert_to_csv_format [[[49], [50]], replicate 30 [49], replicate 25 [51]] ! 2 =
     replicate 25 [51]"
proof -
  define item where "item = \<lparr>bs_level = 2, bs_name = cash,
      bs_value = [49, 44, 50, 51, 52, 44, 53, 54, 55], bs_note = []\<rparr>"
  define tbl where "tbl = build_section_with_grouping default_structure assets_section [(cash, item)]
        @ [replicate 25 []]
        @ build_section_with_grouping default_structure liabilities_section [(cash, item)]"
  have c: "columns one_row_frame = label_value_columns" by (simp add: one_row_frame_def)
  have b: "build_balance_sheet_structure_with_grouping (cfg_structure cash_config) [(cash, [item])] =
      Inr tbl"
    unfolding tbl_def item_def by (rule build_one_row)
  have g: "group_items (cfg_account_mapping cash_config) []
     (map (row_item one_row_frame [38917, 30446, 21517] [20516]) (rows one_row_frame)) =
      Inr [(cash, [item])]"
    unfolding item_def by (rule classify_one_row)
  have len: "length tbl = 72"
    using b by (simp add: cash_config_def default_table)
  have row2: "tbl ! 2 = (replicate 25 [])[2 := cash, 9 := [34, 49, 44, 50, 51, 52, 44, 53, 54, 55, 34]]"
    by (simp add: tbl_def item_def build_section_with_grouping_def default_structure_def
          assets_section_def add_item_row_with_grouping_def cash_def)
  note T = every_output_row_has_25_cells [of cash_config one_row_frame "convert_to_csv_format tbl"
      one_row_frame "[38917, 30446, 21517]" "[20516]" "[(cash, [item])]" tbl tbl]
  from T label_value_frame [OF c] g b
  have r: "transform_to_balance_sheet cash_config one_row_frame = Inr (convert_to_csv_format tbl)"
    by simp
  from T r have all25: "list_all (\<lambda>row. length row = 25) (convert_to_csv_format tbl)" by simp
  from T have l: "length (convert_to_csv_format tbl) = 72" by (simp only: len)
  from T len have "convert_to_csv_format tbl ! 2 =
        (if length (tbl ! 2) < 25 then tbl ! 2 @ replicate (25 - length (tbl ! 2)) []
         else if 25 < length (tbl ! 2) then take 25 (tbl ! 2)
         else tbl ! 2)" by simp
  then have c2: "convert_to_csv_format tbl ! 2 =
      (replicate 25 [])[2 := cash, 9 := [34, 49, 44, 50, 51, 52, 44, 53, 54, 55, 34]]"
    by (simp add: row2)
  have 1: "(case transform_to_balance_sheet cash_config one_row_frame of
      Inl e \<Rightarrow> (0, [], [], False)
    | Inr t \<Rightarrow> (length t, t ! 2 ! 2, t ! 2 ! 9, list_all (\<lambda>row. length row = 25) t)) =
     (72, cash, [34, 49, 44, 50, 51, 52, 44, 53, 54, 55, 34], True)"
    unfolding r sum.case c2 l using all25 by simp
  have e: "filter_current_year \<lparr>columns = [], rows = []\<rparr> = Inr \<lparr>columns = [], rows = []\<rparr>"
    "detect_item_name_column \<lparr>columns = [], rows = []\<rparr> = None"
    by (simp_all add: filter_current_year_def column_names_def detect_item_name_column_def
          item_name_candidates_def)
  from every_output_row_has_25_cells [of cash_config "\<lparr>columns = [], rows = []\<rparr>" "[]"
      "\<lparr>columns = [], rows = []\<rparr>" "[]" "[]" "[]" "[]" "[]"] e
  have 2: "transform_to_balance_sheet cash_config \<lparr>columns = [], rows = []\<rparr> = Inr []" by simp
  note U = every_output_row_has_25_cells [of cash_config one_row_frame "[]" one_row_frame "[]" "[]"
      "[]" "[]" "[[[49], [50]], replicate 30 [49], replicate 25 [51]]"]
  from U have 3: "length (convert_to_csv_format [[[49], [50]], replicate 30 [49], replicate 25 [51]]) = 3"
    by simp
  from U have 4: "convert_to_csv_format [[[49], [50]], replicate 30 [49], replicate 25 [51]] ! 0 =
     [[49], [50]] @ replicate 23 []"
    and 5: "convert_to_csv_format [[[49], [50]], replicate 30 [49], replicate 25 [51]] ! 1 =
     replicate 25 [49]"
    and 6: "convert_to_csv_format [[[49], [50]], replicate 30 [49], replicate 25 [51]] ! 2 =
     replicate 25 [51]"
    by (simp_all add: convert_to_csv_format_def standardize_row_def)
  from 1 2 3 4 5 6 show ?thesis by (intro conjI)
qed

subsection \<open>Summation of whole amounts (C9)\<close>

lemma magnitude_nonneg: "0 \<le> (\<Sum>item\<leftarrow>xs. magnitude (bs_value item))"
  by (rule sum_list_nonneg) (auto simp: magnitude_def split: option.splits pyfloat.splits)

lemma sum_items_whole:
  assumes "list_all (\<lambda>item. whole_or_skipped (bs_value item)) xs"
    and "\<bar>k\<bar> + (\<Sum>item\<leftarrow>xs. magnitude (bs_value item)) < 2 ^ 53"
  shows "sum_items (Fin (of_int k), b) xs =
     (Fin (of_int (k + (\<Sum>item\<leftarrow>xs. whole_value (bs_value item)))),
      b \<or> list_ex (\<lambda>item. item_amount (bs_value item) \<noteq> None) xs)"
  using assms
proof (induction xs arbitrary: k b)
  case Nil
  then show ?case by simp
next
  case (Cons x xs)
  from Cons.prems(1) have rest: "list_all (\<lambda>item. whole_or_skipped (bs_value item)) xs" by simp
  show ?case
  proof (cases "item_amount (bs_value x)")
    case None
    then have w: "whole_value (bs_value x) = 0" "magnitude (bs_value x) = 0"
      by (simp_all add: whole_value_def magnitude_def)
    from Cons.prems(2) have "\<bar>k\<bar> + (\<Sum>item\<leftarrow>xs. magnitude (bs_value item)) < 2 ^ 53"
      by (simp add: w)
    from Cons.IH [OF rest this, of b] show ?thesis by (simp add: None w)
  next
    case (Some f)
    from Cons.prems(1) have "whole_or_skipped (bs_value x)" by simp
    with Some obtain q where f: "f = Fin q" and q: "q = of_int \<lfloor>q\<rfloor>"
      by (cases f) (auto simp: whole_or_skipped_def)
    define j where "j = \<lfloor>q\<rfloor>"
    have qj: "q = of_int j" using q by (simp only: j_def)
    have w: "whole_value (bs_value x) = j" "magnitude (bs_value x) = \<bar>j\<bar>"
      by (simp_all add: whole_value_def magnitude_def Some f j_def)
    from Cons.prems(2) have "\<bar>k\<bar> + \<bar>j\<bar> + (\<Sum>item\<leftarrow>xs. magnitude (bs_value item)) < 2 ^ 53"
      by (simp add: w)
    then have bound: "\<bar>k + j\<bar> + (\<Sum>item\<leftarrow>xs. magnitude (bs_value item)) < 2 ^ 53"
      by linarith
    then have "\<bar>k + j\<bar> < 2 ^ 53" using magnitude_nonneg [of xs] by linarith
    then have "round_double (of_int (k + j)) = Fin (of_int (k + j))"
      by (rule round_double_of_int_exact)
    then have fa: "float_add (Fin (of_int k)) f = Fin (of_int (k + j))"
      by (simp add: f qj)
    from Cons.IH [OF rest bound, of True] show ?thesis
      by (simp add: Some fa w add.assoc)
  qed
qed

lemma sum_list_mset_cong:
  fixes f :: "'a \<Rightarrow> int"
  assumes "mset xs = mset ys"
  shows "sum_list (map f xs) = sum_list (map f ys)"
proof -
  have "sum_list (map f xs) = sum_mset (image_mset f (mset xs))"
    by (simp only: sum_mset_sum_list [symmetric] mset_map)
  also have "\<dots> = sum_mset (image_mset f (mset ys))" by (simp only: assms)
  also have "\<dots> = sum_list (map f ys)" by (simp only: sum_mset_sum_list [symmetric] mset_map)
  finally show ?thesis .
qed

lemma format_total_whole: "format_total (Fin (of_int k)) = Inr (format_int k)"
  by (simp add: format_total_def)

lemma consolidate_single:
  assumes "sum_items (Fin 0, False) xs = (Fin (of_int s), v)" "v \<longrightarrow> xs \<noteq> []"
  shows "(case consolidate [(account, xs)] of
            Inl e \<Rightarrow> Inl e
          | Inr c \<Rightarrow> Inr (map (\<lambda>p. (fst p, bs_value (snd p))) c)) =
         Inr (if v then [(account, format_int s)] else [])"
  using assms by (cases "xs = []") (auto simp: format_total_whole)

text \<open>
  C9, as the code has it. The aggregation adds binary64 floats in the order of the items.
  When every value of a group that the loop does not skip parses to a whole number, and
  the absolute values of these numbers add up to less than \<open>2 ^ 53\<close>, every partial sum is
  exact: a permutation of the group has the same total, which is the sum of the
  numbers, and the consolidated entry carries this sum with grouping separators (no entry
  when every value is skipped).
\<close>

theorem consolidated_sum_order_independent:
  "mset items' = mset items \<and>
   list_all (\<lambda>item. whole_or_skipped (bs_value item)) items \<and>
   (\<Sum>item\<leftarrow>items. magnitude (bs_value item)) < 2 ^ 53
   \<longrightarrow> sum_items (Fin 0, False) items' = sum_items (Fin 0, False) items \<and>
       sum_items (Fin 0, False) items =
         (Fin (of_int (\<Sum>item\<leftarrow>items. whole_value (bs_value item))),
          list_ex (\<lambda>item. item_amount (bs_value item) \<noteq> None) items) \<and>
       (case consolidate [(account, items')] of
          Inl e \<Rightarrow> Inl e
        | Inr c \<Rightarrow> Inr (map (\<lambda>p. (fst p, bs_value (snd p))) c)) =
         (case consolidate [(account, items)] of
            Inl e \<Rightarrow> Inl e
          | Inr c \<Rightarrow> Inr (map (\<lambda>p. (fst p, bs_value (snd p))) c)) \<and>
       (case consolidate [(account, items)] of
          Inl e \<Rightarrow> Inl e
        | Inr c \<Rightarrow> Inr (map (\<lambda>p. (fst p, bs_value (snd p))) c)) =
         Inr (if list_ex (\<lambda>item. item_amount (bs_value item) \<noteq> None) items
              then [(account, format_int (\<Sum>item\<leftarrow>items. whole_value (bs_value item)))]
              else [])"
proof (intro impI)
  assume h: "mset items' = mset items \<and>
   list_all (\<lambda>item. whole_or_skipped (bs_value item)) items \<and>
   (\<Sum>item\<leftarrow>items. magnitude (bs_value item)) < 2 ^ 53"
  then have m: "mset items' = mset items"
    and w: "list_all (\<lambda>item. whole_or_skipped (bs_value item)) items"
    and b: "\<bar>0\<bar> + (\<Sum>item\<leftarrow>items. magnitude (bs_value item)) < 2 ^ 53" by simp_all
  from m have s: "set items' = set items" by (rule mset_eq_setD)
  have w': "list_all (\<lambda>item. whole_or_skipped (bs_value item)) items'"
    using w by (simp add: list_all_iff s)
  have b': "\<bar>0\<bar> + (\<Sum>item\<leftarrow>items'. magnitude (bs_value item)) < 2 ^ 53"
    using b by (simp only: sum_list_mset_cong [OF m, of "\<lambda>item. magnitude (bs_value item)"])
  let ?v = "list_ex (\<lambda>item. item_amount (bs_value item) \<noteq> None) items"
  let ?s = "\<Sum>item\<leftarrow>items. whole_value (bs_value item)"
  have v': "list_ex (\<lambda>item. item_amount (bs_value item) \<noteq> None) items' = ?v"
    by (simp add: list_ex_iff s)
  have s': "(\<Sum>item\<leftarrow>items'. whole_value (bs_value item)) = ?s"
    by (rule sum_list_mset_cong [OF m])
  have 1: "sum_items (Fin 0, False) items = (Fin (of_int ?s), ?v)"
    using sum_items_whole [OF w b, of False] by simp
  have 2: "sum_items (Fin 0, False) items' = (Fin (of_int ?s), ?v)"
  proof -
    have "sum_items (Fin (of_int 0), False) items' =
        (Fin (of_int (0 + (\<Sum>item\<leftarrow>items'. whole_value (bs_value item)))),
         False \<or> list_ex (\<lambda>item. item_amount (bs_value item) \<noteq> None) items')"
      using w' b' by (rule sum_items_whole)
    then show ?thesis by (simp only: v' s' of_int_0 add_0 simp_thms)
  qed
  have ne: "?v \<longrightarrow> items \<noteq> []" by auto
  have ne': "?v \<longrightarrow> items' \<noteq> []" using v' by auto
  note c = consolidate_single [OF 1 ne, of account]
  note c' = consolidate_single [OF 2 ne', of account]
  show "sum_items (Fin 0, False) items' = sum_items (Fin 0, False) items \<and>
       sum_items (Fin 0, False) items = (Fin (of_int ?s), ?v) \<and>
       (case consolidate [(account, items')] of
          Inl e \<Rightarrow> Inl e
        | Inr c \<Rightarrow> Inr (map (\<lambda>p. (fst p, bs_value (snd p))) c)) =
         (case consolidate [(account, items)] of
            Inl e \<Rightarrow> Inl e
          | Inr c \<Rightarrow> Inr (map (\<lambda>p. (fst p, bs_value (snd p))) c)) \<and>
       (case consolidate [(account, items)] of
          Inl e \<Rightarrow> Inl e
        | Inr c \<Rightarrow> Inr (map (\<lambda>p. (fst p, bs_value (snd p))) c)) =
         Inr (if ?v then [(account, format_int ?s)] else [])"
    by (simp only: 1 2 c c' simp_thms)
qed

end
